theory Spec2Isabelle
  imports Complex_Main "HOL-Library.AList"
begin

section \<open>Data model\<close>

text \<open>
  The development embeds \<^verbatim>\<open>scripts/update_market_data.py\<close> and the client
  \<^verbatim>\<open>public/price/alpha_vantage.py\<close>.

  \<^item> A calendar date is its proleptic Gregorian ordinal (\<^verbatim>\<open>date.toordinal()\<close>):
    comparison of dates is comparison of ordinals, \<^verbatim>\<open>timedelta(days=7)\<close> is 7.
  \<^item> A Python float is a real number. Rounding of the single float operations, and the
    values inf and NaN that float division by zero produces, are outside the model; the
    one NaN the source produces on purpose (the first entry of \<^verbatim>\<open>pct_change\<close>) is
    modelled by \<open>None\<close>. Theorems that divide state the non-zero hypotheses they need.
  \<^item> A DataFrame is the list of its rows; a Series indexed by date is a list of pairs.
  \<^item> The files of \<^verbatim>\<open>public/data\<close> are fields of a state record, \<open>None\<close> when the file
    does not exist; the CSV text itself is not modelled.
\<close>

type_synonym date = int
type_synonym ticker = string
type_synonym series = "(date \<times> real) list"

record nv_row =
  date :: date
  net_value :: real
  pct_change :: real

record pf_row =
  ticker :: ticker
  stock_name :: "string option"
  weight :: real
  reason :: "string option"

record bp_row = pf_row +
  weight_frac :: real

record frame =
  columns :: "ticker list"
  rows :: "(date \<times> real list) list"

datatype error =
    MissingApiKey
  | MissingRebalanceDate
  | MissingBasePortfolio
  | WeightsNotPositive
  | NoDataReturned ticker
  | NoDataInWindow ticker
  | NoOverlappingTradingDays
  | BeforeRebalance
  | MalformedBar ticker date
  | NoObjectsToConcatenate
  | LengthMismatch
  | IndexError
  | TypeError

text \<open>
  What one HTTP request to the provider yields. \<open>HttpError\<close>: \<^verbatim>\<open>requests.get\<close> or
  \<^verbatim>\<open>raise_for_status\<close> raises; \<open>BadJson\<close>: \<^verbatim>\<open>resp.json()\<close> raises; \<open>ApiNote\<close>,
  \<open>ApiErrorMessage\<close>, \<open>UnknownPayload\<close>: a JSON object without the key
  \<^verbatim>\<open>"Time Series (Daily)"\<close>, carrying \<^verbatim>\<open>"Note"\<close> (rate limit), \<^verbatim>\<open>"Error Message"\<close>
  (invalid symbol) or neither; \<open>TimeSeries\<close>: the dictionary under that key, as an
  association list read through \<open>map_of\<close>. A bar is \<open>Some p\<close> when its six fields are
  present and parse, \<open>p\<close> being the adjusted close, and \<open>None\<close> when indexing the bar or
  \<^verbatim>\<open>float()\<close>/\<^verbatim>\<open>int()\<close> on a field raises.
\<close>

datatype response =
    HttpError
  | BadJson
  | ApiNote string
  | ApiErrorMessage string
  | UnknownPayload
  | TimeSeries "(date \<times> real option) list"

text \<open>The \<open>n\<close>-th request of the process's lifetime, for a ticker.\<close>

type_synonym source = "nat \<Rightarrow> ticker \<Rightarrow> response"

record config =
  api_key :: "string option"
  meta_rebalance_date :: "date option"
  base_csv :: "pf_row list option"
  clock_today :: date

record state =
  net_values_csv :: "nv_row list option"
  legacy_csv :: "nv_row list option"
  portfolio_csv :: "pf_row list option"
  calls :: nat

datatype exit = Done | Fatal error

datatype step = Return state | Raise error state | Continue state

section \<open>The Alpha Vantage client\<close>

text \<open>
  Lines 93 to 109 of \<^verbatim>\<open>get_daily_historic_data\<close>: the loop over the sorted keys. A key
  outside the window is skipped before its bar is read; a malformed bar inside the window
  raises (\<^verbatim>\<open>KeyError\<close> or \<^verbatim>\<open>ValueError\<close>), outside the \<^verbatim>\<open>try\<close> block.
\<close>

fun parse_bars ::
  "ticker \<Rightarrow> date \<Rightarrow> date \<Rightarrow> (date \<times> real option) list \<Rightarrow> date list \<Rightarrow> error + series" where
  "parse_bars t start_date end_date data [] = Inr []"
| "parse_bars t start_date end_date data (d # ds) =
     (if d < start_date \<or> end_date < d then parse_bars t start_date end_date data ds
      else (case map_of data d of
              Some (Some p) \<Rightarrow>
                (case parse_bars t start_date end_date data ds of
                   Inl e \<Rightarrow> Inl e
                 | Inr prices \<Rightarrow> Inr ((d, p) # prices))
            | _ \<Rightarrow> Inl (MalformedBar t d)))"

text \<open>
  \<^verbatim>\<open>get_daily_historic_data\<close>: every exception of the \<^verbatim>\<open>try\<close> block (lines 80 to 91)
  returns the empty DataFrame.
\<close>

fun get_daily_historic_data :: "response \<Rightarrow> ticker \<Rightarrow> date \<Rightarrow> date \<Rightarrow> error + series" where
  "get_daily_historic_data (TimeSeries data) t start_date end_date =
     parse_bars t start_date end_date data (sort (remdups (map fst data)))"
| "get_daily_historic_data _ t start_date end_date = Inr []"

section \<open>Loading the inputs\<close>

definition load_api_key :: "config \<Rightarrow> error + string" where
  "load_api_key cfg = (case api_key cfg of None \<Rightarrow> Inl MissingApiKey | Some k \<Rightarrow> Inr k)"

definition load_rebalance_date :: "config \<Rightarrow> error + date" where
  "load_rebalance_date cfg =
     (case meta_rebalance_date cfg of None \<Rightarrow> Inl MissingRebalanceDate | Some d \<Rightarrow> Inr d)"

definition load_base_portfolio :: "config \<Rightarrow> error + bp_row list" where
  "load_base_portfolio cfg =
     (case base_csv cfg of
        None \<Rightarrow> Inl MissingBasePortfolio
      | Some df \<Rightarrow>
          (let total = sum_list (map weight df) in
           if total \<le> 0 then Inl WeightsNotPositive
           else Inr (map (\<lambda>r. pf_row.extend r \<lparr>weight_frac = weight r / total\<rparr>) df)))"

text \<open>
  \<^verbatim>\<open>load_net_values\<close> (lines 175 to 179): sort by date, then keep the last row of each
  date. The sort is modelled as a stable one; pandas does not promise that, so among the
  rows of one date the source may keep another row than the model does. The properties
  proved of \<open>load_net_values\<close> are about its dates and hold for every sort.
\<close>

fun drop_duplicates_last :: "nv_row list \<Rightarrow> nv_row list" where
  "drop_duplicates_last [] = []"
| "drop_duplicates_last (r # rs) =
     (if date r \<in> set (map date rs) then drop_duplicates_last rs
      else r # drop_duplicates_last rs)"

definition load_net_values :: "nv_row list \<Rightarrow> nv_row list" where
  "load_net_values df = drop_duplicates_last (sort_key date df)"

section \<open>Fetching and aligning prices\<close>

text \<open>
  The body of the loop of \<^verbatim>\<open>fetch_prices\<close> for one ticker (lines 95 to 108), given
  what the request yields: the query is padded by seven days, an empty answer and an
  empty window both abort.
\<close>

definition fetch_one :: "response \<Rightarrow> ticker \<Rightarrow> date \<Rightarrow> date \<Rightarrow> error + series" where
  "fetch_one resp t start_date end_date =
     (case get_daily_historic_data resp t (start_date - 7) end_date of
        Inl e \<Rightarrow> Inl e
      | Inr df \<Rightarrow>
          if df = [] then Inl (NoDataReturned t)
          else (let series = filter (\<lambda>(d, p). start_date \<le> d \<and> d \<le> end_date) df in
                if series = [] then Inl (NoDataInWindow t) else Inr series))"

text \<open>
  The loop of \<^verbatim>\<open>fetch_prices\<close> (lines 93 to 111). \<open>series_map\<close> is a Python dict in
  insertion order: storing under a key already present replaces the value in place.
  The second component counts the requests made.
\<close>

fun fetch_series ::
  "source \<Rightarrow> date \<Rightarrow> date \<Rightarrow> ticker list \<Rightarrow> nat \<Rightarrow> (ticker \<times> series) list
     \<Rightarrow> (error + (ticker \<times> series) list) \<times> nat" where
  "fetch_series src start_date end_date [] n series_map = (Inr series_map, n)"
| "fetch_series src start_date end_date (t # ts) n series_map =
     (case fetch_one (src n t) t start_date end_date of
        Inl e \<Rightarrow> (Inl e, Suc n)
      | Inr series \<Rightarrow>
          fetch_series src start_date end_date ts (Suc n) (AList.update t series series_map))"

text \<open>
  Lines 113 to 119 of \<^verbatim>\<open>fetch_prices\<close>: the inner join of the series on their dates,
  sorted by date; then the emptiness check; then the assignment of the column labels,
  which raises when the dict holds fewer series than there are tickers.
\<close>

definition align :: "ticker list \<Rightarrow> (ticker \<times> series) list \<Rightarrow> error + frame" where
  "align tickers series_map =
     (case series_map of
        [] \<Rightarrow> Inl NoObjectsToConcatenate
      | (t0, s0) # rest \<Rightarrow>
          (let common = filter (\<lambda>d. list_all (\<lambda>(t, s). d \<in> set (map fst s)) rest) (map fst s0);
               index = sort common;
               body = map (\<lambda>d. (d, map (\<lambda>(t, s). the (map_of s d)) series_map)) index
           in if body = [] then Inl NoOverlappingTradingDays
              else if length series_map \<noteq> length tickers then Inl LengthMismatch
              else Inr \<lparr>columns = tickers, rows = body\<rparr>))"

definition fetch_prices ::
  "source \<Rightarrow> nat \<Rightarrow> ticker list \<Rightarrow> date \<Rightarrow> date \<Rightarrow> (error + frame) \<times> nat" where
  "fetch_prices src n tickers start_date end_date =
     (case fetch_series src start_date end_date tickers n [] of
        (Inl e, n') \<Rightarrow> (Inl e, n')
      | (Inr series_map, n') \<Rightarrow> (align tickers series_map, n'))"

section \<open>Net values and live weights\<close>

text \<open>
  \<^verbatim>\<open>compute_net_values\<close>. \<^verbatim>\<open>iloc[0]\<close> raises on a frame without rows. The weights
  carry the same labels as the columns, in the same order, so pandas multiplies by
  position. \<^verbatim>\<open>pct_change\<close> is \<^verbatim>\<open>x / x.shift(1) - 1\<close>, NaN in the first row, which
  \<^verbatim>\<open>fillna(0.0)\<close> replaces.
\<close>

definition pct_change_raw :: "real list \<Rightarrow> real option list" where
  "pct_change_raw xs =
     (case xs of [] \<Rightarrow> [] | _ # later \<Rightarrow> None # map2 (\<lambda>cur prev. Some (cur / prev - 1)) later xs)"

definition fillna :: "real \<Rightarrow> real option list \<Rightarrow> real list" where
  "fillna v xs = map (\<lambda>x. case x of None \<Rightarrow> v | Some y \<Rightarrow> y) xs"

definition compute_net_values :: "frame \<Rightarrow> real list \<Rightarrow> real \<Rightarrow> error + nv_row list" where
  "compute_net_values price_frame base_weights start_value =
     (case rows price_frame of
        [] \<Rightarrow> Inl IndexError
      | (d0, base_prices) # _ \<Rightarrow>
          (let rel_prices = map (\<lambda>(d, ps). map2 (/) ps base_prices) (rows price_frame);
               weighted = map (\<lambda>ps. map2 (*) ps base_weights) rel_prices;
               portfolio_value = map sum_list weighted;
               net_value = map (\<lambda>v. v / hd portfolio_value * start_value) portfolio_value;
               pct_change = fillna 0 (pct_change_raw net_value)
           in Inr (map (\<lambda>((d, ps), v, c). \<lparr>date = d, net_value = v, pct_change = c\<rparr>)
                     (zip (rows price_frame) (zip net_value pct_change)))))"

text \<open>
  \<^verbatim>\<open>Series.round(4)\<close> is numpy's \<^verbatim>\<open>rint(x * 10**4) / 10**4\<close>; \<^verbatim>\<open>rint\<close> rounds a tie
  to the even neighbour. Here the quotient, the percentage and the rounding are taken in
  exact arithmetic, where the source computes in doubles. The two can differ in the last
  written digit: with weight fractions 1/2 and 1/2 and prices 15 and 1 moving to 9 and 25,
  the first percentage is the tie 2.34375 here, written 2.3438, and 2.3437499999999996 in
  doubles, written 2.3437. No theorem of this development states the value of a written
  weight; the theorems on runs use only that \<open>update_live_weights\<close> returns rows when the
  frame has rows.
\<close>

definition rint :: "real \<Rightarrow> int" where
  "rint x =
     (let f = \<lfloor>x\<rfloor>; r = x - of_int f
      in if r < 1 / 2 then f else if 1 / 2 < r then f + 1 else if even f then f else f + 1)"

definition round4 :: "real \<Rightarrow> real" where
  "round4 x = of_int (rint (x * 10 ^ 4)) / 10 ^ 4"

definition update_live_weights :: "bp_row list \<Rightarrow> frame \<Rightarrow> error + pf_row list" where
  "update_live_weights base_portfolio price_frame =
     (case rows price_frame of
        [] \<Rightarrow> Inl IndexError
      | (d0, base_prices) # _ \<Rightarrow>
          (let latest_prices = snd (last (rows price_frame));
               latest_values = map2 (*) (map weight_frac base_portfolio)
                                 (map2 (/) latest_prices base_prices);
               latest_weights = map (\<lambda>v. v / sum_list latest_values) latest_values
           in Inr (map (\<lambda>(r, w). (pf_row.truncate r)\<lparr>weight := round4 (w * 100)\<rparr>)
                     (zip base_portfolio latest_weights))))"

section \<open>The orchestrator\<close>

text \<open>
  \<^verbatim>\<open>d["date"].min()\<close> is NaN on a frame without rows (\<open>None\<close>). Python's \<^verbatim>\<open>min\<close> with
  a key keeps the first minimal element and replaces it only by a strictly smaller one;
  NaN is not smaller than NaN, and comparing NaN with a date raises \<^verbatim>\<open>TypeError\<close>.
\<close>

definition date_min :: "nv_row list \<Rightarrow> date option" where
  "date_min df = (case map date df of [] \<Rightarrow> None | d # ds \<Rightarrow> Some (fold min ds d))"

fun py_min :: "nv_row list \<Rightarrow> nv_row list list \<Rightarrow> error + nv_row list" where
  "py_min best [] = Inr best"
| "py_min best (x # xs) =
     (case (date_min x, date_min best) of
        (Some a, Some b) \<Rightarrow> py_min (if a < b then x else best) xs
      | (None, None) \<Rightarrow> py_min best xs
      | _ \<Rightarrow> Inl TypeError)"

text \<open>Lines 165 to 184 of \<^verbatim>\<open>main\<close>: the candidates, public file first, and the choice.\<close>

definition existing_candidates :: "state \<Rightarrow> nv_row list list" where
  "existing_candidates s =
     (case net_values_csv s of None \<Rightarrow> [] | Some df \<Rightarrow> [df]) @
     (case legacy_csv s of None \<Rightarrow> [] | Some df \<Rightarrow> [df])"

definition choose_existing :: "state \<Rightarrow> error + nv_row list option" where
  "choose_existing s =
     (case map load_net_values (existing_candidates s) of
        [] \<Rightarrow> Inr None
      | x # xs \<Rightarrow> (case py_min x xs of Inl e \<Rightarrow> Inl e | Inr chosen \<Rightarrow> Inr (Some chosen)))"

text \<open>
  Lines 188 to 209 of \<^verbatim>\<open>main\<close>: the history update. \<open>Return\<close> is the \<^verbatim>\<open>return\<close> of
  line 194, \<open>Raise\<close> an exception or \<^verbatim>\<open>SystemExit\<close>, \<open>Continue\<close> falls through to
  line 211.
\<close>

definition update_history ::
  "date \<Rightarrow> bp_row list \<Rightarrow> date \<Rightarrow> source \<Rightarrow> nv_row list option \<Rightarrow> state \<Rightarrow> step" where
  "update_history rebalance_date base_portfolio today src existing_df s =
     (if existing_df \<noteq> None \<and> the existing_df \<noteq> [] then
        (let last_row = last (the existing_df);
             last_date = date last_row;
             last_value = net_value last_row
         in if today \<le> last_date then Return s
            else (let start_date = max rebalance_date last_date;
                      tickers = map ticker base_portfolio
                  in case fetch_prices src (calls s) tickers start_date today of
                       (Inl e, n) \<Rightarrow> Raise e (s\<lparr>calls := n\<rparr>)
                     | (Inr price_frame, n) \<Rightarrow>
                         (case compute_net_values price_frame
                                 (map weight_frac base_portfolio) last_value of
                            Inl e \<Rightarrow> Raise e (s\<lparr>calls := n\<rparr>)
                          | Inr net_values \<Rightarrow>
                              (let new_rows = drop 1 net_values;
                                   combined = the existing_df @ new_rows
                               in Continue (s\<lparr>net_values_csv := Some combined, calls := n\<rparr>)))))
      else if today \<le> rebalance_date then Raise BeforeRebalance s
      else (let tickers = map ticker base_portfolio
            in case fetch_prices src (calls s) tickers rebalance_date today of
                 (Inl e, n) \<Rightarrow> Raise e (s\<lparr>calls := n\<rparr>)
               | (Inr price_frame, n) \<Rightarrow>
                   (case compute_net_values price_frame (map weight_frac base_portfolio) 1 of
                      Inl e \<Rightarrow> Raise e (s\<lparr>calls := n\<rparr>)
                    | Inr net_values \<Rightarrow>
                        Continue (s\<lparr>net_values_csv := Some net_values, calls := n\<rparr>))))"

text \<open>Lines 211 to 215 of \<^verbatim>\<open>main\<close>: the live weights.\<close>

definition refresh_live_weights ::
  "date \<Rightarrow> bp_row list \<Rightarrow> date \<Rightarrow> source \<Rightarrow> state \<Rightarrow> exit \<times> state" where
  "refresh_live_weights rebalance_date base_portfolio today src s =
     (let tickers = map ticker base_portfolio
      in case fetch_prices src (calls s) tickers rebalance_date today of
           (Inl e, n) \<Rightarrow> (Fatal e, s\<lparr>calls := n\<rparr>)
         | (Inr price_frame_for_weights, n) \<Rightarrow>
             (case update_live_weights base_portfolio price_frame_for_weights of
                Inl e \<Rightarrow> (Fatal e, s\<lparr>calls := n\<rparr>)
              | Inr live_portfolio \<Rightarrow>
                  (Done, s\<lparr>portfolio_csv := Some live_portfolio, calls := n\<rparr>)))"

definition main :: "config \<Rightarrow> source \<Rightarrow> state \<Rightarrow> exit \<times> state" where
  "main cfg src s =
     (case load_api_key cfg of
        Inl e \<Rightarrow> (Fatal e, s)
      | Inr key \<Rightarrow>
     (case load_rebalance_date cfg of
        Inl e \<Rightarrow> (Fatal e, s)
      | Inr rebalance_date \<Rightarrow>
     (case load_base_portfolio cfg of
        Inl e \<Rightarrow> (Fatal e, s)
      | Inr base_portfolio \<Rightarrow>
     (case choose_existing s of
        Inl e \<Rightarrow> (Fatal e, s)
      | Inr existing_df \<Rightarrow>
     (case update_history rebalance_date base_portfolio (clock_today cfg) src existing_df s of
        Return s' \<Rightarrow> (Done, s')
      | Raise e s' \<Rightarrow> (Fatal e, s')
      | Continue s' \<Rightarrow>
          refresh_live_weights rebalance_date base_portfolio (clock_today cfg) src s')))))"

section \<open>Auxiliary definitions and example inputs\<close>

text \<open>
  The \<^verbatim>\<open>net_value\<close> Series of \<^verbatim>\<open>compute_net_values\<close> (lines 126 to 130) as a function
  of its arguments.
\<close>

definition nv_list :: "frame \<Rightarrow> real list \<Rightarrow> real \<Rightarrow> real list" where
  "nv_list f w v =
     (let pv = map (\<lambda>(d, ps). sum_list (map2 (*) (map2 (/) ps (snd (hd (rows f)))) w)) (rows f)
      in map (\<lambda>x. x / hd pv * v) pv)"

text \<open>
  Example inputs: an allocation of 60 and 40 on two tickers, a provider that knows these
  two tickers on three trading days (2024-01-01 is ordinal 738886), and the history these
  prices give.
\<close>

definition example_base :: "pf_row list" where
  "example_base =
     [\<lparr>ticker = ''A'', stock_name = None, weight = 60, reason = None\<rparr>,
      \<lparr>ticker = ''B'', stock_name = None, weight = 40, reason = None\<rparr>]"

definition example_history :: "nv_row list" where
  "example_history =
     [\<lparr>date = 738886, net_value = 1, pct_change = 0\<rparr>,
      \<lparr>date = 738887, net_value = 1.02, pct_change = 0.02\<rparr>,
      \<lparr>date = 738888, net_value = 1.05, pct_change = 0.03\<rparr>]"

definition example_source :: source where
  "example_source n t =
     (if t = ''A'' then TimeSeries [(738886, Some 100), (738887, Some 110), (738888, Some 121)]
      else if t = ''B'' then TimeSeries [(738886, Some 50), (738887, Some 45), (738888, Some 40.5)]
      else ApiErrorMessage ''Invalid API call.'')"

definition example_frame :: frame where
  "example_frame =
     \<lparr>columns = [''A'', ''B''],
      rows = [(738886, [100, 50]), (738887, [110, 45]), (738888, [121, 40.5])]\<rparr>"

text \<open>Three series with the date sets \<open>{1, 2, 3}\<close>, \<open>{2, 3, 4}\<close> and \<open>{2, 3}\<close>.\<close>

definition ragged_series :: "(ticker \<times> series) list" where
  "ragged_series =
     [(''X'', [(1, 10), (2, 11), (3, 12)]),
      (''Y'', [(2, 20), (3, 21), (4, 22)]),
      (''Z'', [(2, 30), (3, 31)])]"

definition example_cfg :: config where
  "example_cfg =
     \<lparr>api_key = Some ''demo'', meta_rebalance_date = Some 738886,
      base_csv = Some example_base, clock_today = 738888\<rparr>"

definition up_to_date_state :: state where
  "up_to_date_state =
     \<lparr>net_values_csv = Some example_history, legacy_csv = None,
      portfolio_csv = Some example_base, calls = 0\<rparr>"

definition fresh_state :: state where
  "fresh_state =
     \<lparr>net_values_csv = None, legacy_csv = None,
      portfolio_csv = Some example_base, calls = 0\<rparr>"

definition example_portfolio :: "bp_row list" where
  "example_portfolio =
     [\<lparr>ticker = ''A'', stock_name = None, weight = 60, reason = None, weight_frac = 3 / 5\<rparr>,
      \<lparr>ticker = ''B'', stock_name = None, weight = 40, reason = None, weight_frac = 2 / 5\<rparr>]"


text \<open>
  A run on 2024-01-12 after a rebalance on 2024-01-10, with a history that ends on
  2024-01-03.
\<close>

definition rebalanced_cfg :: config where
  "rebalanced_cfg =
     \<lparr>api_key = Some ''demo'', meta_rebalance_date = Some 738895,
      base_csv = Some example_base, clock_today = 738897\<rparr>"

definition later_source :: source where
  "later_source n t =
     (if t = ''A'' then
        TimeSeries [(738888, Some 121), (738895, Some 100), (738896, Some 110), (738897, Some 120)]
      else if t = ''B'' then
        TimeSeries [(738888, Some 40.5), (738895, Some 50), (738896, Some 50), (738897, Some 55)]
      else ApiErrorMessage ''Invalid API call.'')"

definition later_frame :: frame where
  "later_frame =
     \<lparr>columns = [''A'', ''B''],
      rows = [(738895, [100, 50]), (738896, [110, 50]), (738897, [120, 55])]\<rparr>"

text \<open>A longer legacy history that starts on 2023-12-29, beside the public one.\<close>

definition legacy_history :: "nv_row list" where
  "legacy_history = \<lparr>date = 738883, net_value = 0.98, pct_change = 0\<rparr> # example_history"

definition two_histories_state :: state where
  "two_histories_state =
     \<lparr>net_values_csv = Some example_history, legacy_csv = Some legacy_history,
      portfolio_csv = Some example_base, calls = 0\<rparr>"

text \<open>Two outcomes of the history update that agree on the kind of outcome and on the history file.\<close>

fun same_history :: "step \<Rightarrow> step \<Rightarrow> bool" where
  "same_history (Return a) (Return b) = (net_values_csv a = net_values_csv b)"
| "same_history (Raise e a) (Raise e' b) = (e = e' \<and> net_values_csv a = net_values_csv b)"
| "same_history (Continue a) (Continue b) = (net_values_csv a = net_values_csv b)"
| "same_history _ _ = False"

section \<open>Properties of the net-value computation\<close>


lemma map2_rel_self:
  "length ps = length w \<Longrightarrow> \<forall>p\<in>set ps. p \<noteq> (0::real) \<Longrightarrow> map2 (*) (map2 (/) ps ps) w = w"
  by (induction ps w rule: list_induct2) auto

lemma length_pct_change_raw: "length (pct_change_raw xs) = length xs"
  by (cases xs) (auto simp: pct_change_raw_def)

lemma length_fillna: "length (fillna v xs) = length xs"
  by (simp add: fillna_def)

lemma fillna_pct_hd: "xs \<noteq> [] \<Longrightarrow> fillna 0 (pct_change_raw xs) ! 0 = 0"
  by (cases xs) (auto simp: pct_change_raw_def fillna_def)

lemma fillna_pct_nth:
  "0 < i \<Longrightarrow> i < length xs \<Longrightarrow> fillna 0 (pct_change_raw xs) ! i = xs ! i / xs ! (i - 1) - 1"
  by (cases xs; cases i) (auto simp: pct_change_raw_def fillna_def)

lemma compute_net_values_Inr:
  assumes "rows f \<noteq> []"
  shows "compute_net_values f w v =
     Inr (map (\<lambda>((d, ps), x, c). \<lparr>date = d, net_value = x, pct_change = c\<rparr>)
            (zip (rows f) (zip (nv_list f w v) (fillna 0 (pct_change_raw (nv_list f w v))))))"
  using assms
  by (cases "rows f") (auto simp: compute_net_values_def nv_list_def Let_def split_def comp_def)


lemma hd_nv_list:
  assumes "rows f \<noteq> []"
    and "length (snd (hd (rows f))) = length w"
    and "\<forall>p\<in>set (snd (hd (rows f))). p \<noteq> 0"
    and "sum_list w \<noteq> 0"
  shows "hd (nv_list f w v) = v"
proof -
  obtain d0 bp rest where r: "rows f = (d0, bp) # rest"
    using assms(1) by (cases "rows f") auto
  have "map2 (*) (map2 (/) bp bp) w = w"
    using assms(2,3) r by (simp add: map2_rel_self)
  then show ?thesis
    using assms(4) r by (simp add: nv_list_def Let_def)
qed

lemma length_nv_list: "length (nv_list f w v) = length (rows f)"
  by (simp add: nv_list_def Let_def)

text \<open>
  C4. For every frame with at least one row, every weight vector whose sum is not zero
  (the weight fractions that \<open>load_base_portfolio\<close> builds sum to one) and every
  \<open>start_value\<close>, provided the first row has one non-zero price per weight:
  \<open>compute_net_values\<close> returns a series on the dates of the frame whose first
  \<open>net_value\<close> is \<open>start_value\<close> itself and whose first \<open>pct_change\<close> is 0; at every
  later row whose predecessor has a non-zero net value, \<open>pct_change\<close> is the difference
  to the previous net value divided by the previous net value. The equality at the first
  row rests on \<open>x / x = 1\<close> and \<open>1 * v = v\<close> alone.
\<close>

theorem compute_net_values_anchor:
  assumes "rows price_frame \<noteq> []"
    and "length (snd (hd (rows price_frame))) = length base_weights"
    and "\<forall>p\<in>set (snd (hd (rows price_frame))). p \<noteq> 0"
    and "sum_list base_weights \<noteq> 0"
  shows "\<exists>out. compute_net_values price_frame base_weights start_value = Inr out
           \<and> map date out = map fst (rows price_frame)
           \<and> net_value (hd out) = start_value
           \<and> pct_change (hd out) = 0
           \<and> (\<forall>i. 0 < i \<and> i < length out \<and> net_value (out ! (i - 1)) \<noteq> 0 \<longrightarrow>
                 pct_change (out ! i) =
                   (net_value (out ! i) - net_value (out ! (i - 1))) / net_value (out ! (i - 1)))"
proof -
  define nv where "nv = nv_list price_frame base_weights start_value"
  define pc where "pc = fillna 0 (pct_change_raw nv)"
  define out where "out = map (\<lambda>((d, ps), x, c). \<lparr>date = d, net_value = x, pct_change = c\<rparr>)
            (zip (rows price_frame) (zip nv pc))"
  have len: "length nv = length (rows price_frame)" "length pc = length (rows price_frame)"
    by (simp_all add: nv_def pc_def length_nv_list length_fillna length_pct_change_raw)
  have res: "compute_net_values price_frame base_weights start_value = Inr out"
    using compute_net_values_Inr [OF assms(1)] by (simp add: out_def pc_def nv_def)
  have lo: "length out = length (rows price_frame)"
    by (simp add: out_def len)
  have nth: "out ! i = \<lparr>date = fst (rows price_frame ! i), net_value = nv ! i, pct_change = pc ! i\<rparr>"
    if "i < length (rows price_frame)" for i
    using that len by (simp add: out_def split_def)
  have dates: "map date out = map fst (rows price_frame)"
    by (rule nth_equalityI) (simp_all add: lo nth)
  have ne: "out \<noteq> []" "nv \<noteq> []"
    using lo len assms(1) by auto
  have h: "hd out = out ! 0" "hd nv = nv ! 0"
    using ne by (simp_all add: hd_conv_nth)
  have first: "net_value (hd out) = start_value"
    using hd_nv_list [OF assms, of start_value] assms(1) h by (simp add: nth nv_def)
  have pfirst: "pct_change (hd out) = 0"
    using fillna_pct_hd [OF ne(2)] assms(1) h by (simp add: nth pc_def)
  have later: "pct_change (out ! i) =
      (net_value (out ! i) - net_value (out ! (i - 1))) / net_value (out ! (i - 1))"
    if "0 < i" "i < length out" "net_value (out ! (i - 1)) \<noteq> 0" for i
  proof -
    have i: "i < length (rows price_frame)" "i - 1 < length (rows price_frame)" "i < length nv"
      using that lo len by auto
    have "pc ! i = nv ! i / nv ! (i - 1) - 1"
      using fillna_pct_nth [OF that(1) i(3)] by (simp add: pc_def)
    moreover have "nv ! (i - 1) \<noteq> 0"
      using that(3) i by (simp add: nth)
    ultimately show ?thesis
      using i by (simp add: nth diff_divide_distrib)
  qed
  show ?thesis
    using res dates first pfirst later by blast
qed


text \<open>The end-to-end scenario: allocation 60/40, three trading days.\<close>

lemma compute_net_values_scenario:
  "compute_net_values
     \<lparr>columns = [''A'', ''B''],
      rows = [(738886, [100, 50]), (738887, [110, 45]), (738888, [121, 40.5])]\<rparr>
     [0.6, 0.4] 1 =
   Inr [\<lparr>date = 738886, net_value = 1, pct_change = 0\<rparr>,
        \<lparr>date = 738887, net_value = 1.02, pct_change = 0.02\<rparr>,
        \<lparr>date = 738888, net_value = 1.05, pct_change = 1.05 / 1.02 - 1\<rparr>]"
  by (simp add: compute_net_values_def pct_change_raw_def fillna_def)

theorem compute_net_values_anchor_witness:
  "rows \<lparr>columns = [''A'', ''B''],
      rows = [(738886, [100, 50]), (738887, [110, 45]), (738888, [121, 40.5])]\<rparr> \<noteq> []
   \<and> sum_list [0.6, 0.4 :: real] \<noteq> 0
   \<and> (\<exists>out. compute_net_values
     \<lparr>columns = [''A'', ''B''],
      rows = [(738886, [100, 50]), (738887, [110, 45]), (738888, [121, 40.5])]\<rparr>
     [0.6, 0.4] 1 = Inr out
     \<and> map date out = [738886, 738887, 738888]
     \<and> net_value (hd out) = 1 \<and> pct_change (hd out) = 0
     \<and> (\<forall>i. 0 < i \<and> i < length out \<and> net_value (out ! (i - 1)) \<noteq> 0 \<longrightarrow>
                 pct_change (out ! i) =
                   (net_value (out ! i) - net_value (out ! (i - 1))) / net_value (out ! (i - 1))))"
  using compute_net_values_anchor [of "\<lparr>columns = [''A'', ''B''],
      rows = [(738886, [100, 50]), (738887, [110, 45]), (738888, [121, 40.5])]\<rparr>" "[0.6, 0.4]" 1]
  by simp

section \<open>Properties of the client and of fetch_prices\<close>

lemma parse_bars_dates:
  "parse_bars t s e data ks = Inr ps \<Longrightarrow> map fst ps = filter (\<lambda>d. s \<le> d \<and> d \<le> e) ks"
  by (induction ks arbitrary: ps) (auto split: if_splits option.splits sum.splits)

lemma parse_bars_narrow:
  "parse_bars t s e data ks = Inr ps \<Longrightarrow> s \<le> s' \<Longrightarrow>
   parse_bars t s' e data ks = Inr (filter (\<lambda>(d, p). s' \<le> d) ps)"
  by (induction ks arbitrary: ps) (auto split: if_splits option.splits sum.splits)

lemma get_daily_dates:
  assumes "get_daily_historic_data r t s e = Inr df"
  shows "sorted_wrt (<) (map fst df) \<and> (\<forall>d\<in>set (map fst df). s \<le> d \<and> d \<le> e)"
proof (cases r)
  case (TimeSeries data)
  then have "map fst df = filter (\<lambda>d. s \<le> d \<and> d \<le> e) (sort (remdups (map fst data)))"
    using assms by (simp add: parse_bars_dates)
  moreover have "sorted_wrt (<) (sort (remdups (map fst data)))"
    by (simp add: strict_sorted_iff)
  ultimately show ?thesis
    by (simp add: sorted_wrt_filter)
qed (use assms in auto)

lemma get_daily_narrow:
  "get_daily_historic_data r t s e = Inr df \<Longrightarrow> s \<le> s' \<Longrightarrow>
   get_daily_historic_data r t s' e = Inr (filter (\<lambda>(d, p). s' \<le> d) df)"
  by (cases r) (auto simp: parse_bars_narrow)

lemma fetch_one_Inr:
  "fetch_one r t S E = Inr ser \<longleftrightarrow>
     (\<exists>df. get_daily_historic_data r t (S - 7) E = Inr df
        \<and> ser = filter (\<lambda>(d, p). S \<le> d \<and> d \<le> E) df \<and> ser \<noteq> [])"
  by (auto simp: fetch_one_def Let_def split: sum.splits if_splits)

lemma fetch_one_props:
  assumes "fetch_one r t S E = Inr ser"
  shows "ser \<noteq> []" and "sorted_wrt (<) (map fst ser)"
    and "\<forall>d\<in>set (map fst ser). S \<le> d \<and> d \<le> E"
proof -
  obtain df where df: "get_daily_historic_data r t (S - 7) E = Inr df"
    and ser: "ser = filter (\<lambda>(d, p). S \<le> d \<and> d \<le> E) df" and ne: "ser \<noteq> []"
    using assms by (auto simp: fetch_one_Inr)
  show "ser \<noteq> []" by (rule ne)
  have "map fst ser = filter (\<lambda>d. S \<le> d \<and> d \<le> E) (map fst df)"
    by (simp add: ser filter_map comp_def split_def)
  then show "sorted_wrt (<) (map fst ser)"
    using get_daily_dates [OF df] by (simp add: sorted_wrt_filter)
  show "\<forall>d\<in>set (map fst ser). S \<le> d \<and> d \<le> E"
    by (auto simp: ser)
qed

lemma fetch_one_narrow:
  assumes "fetch_one r t S E = Inr ser" and "fetch_one r t S' E = Inr ser'" and "S \<le> S'"
  shows "ser' = filter (\<lambda>(d, p). S' \<le> d) ser"
proof -
  obtain df where df: "get_daily_historic_data r t (S - 7) E = Inr df"
    and ser: "ser = filter (\<lambda>(d, p). S \<le> d \<and> d \<le> E) df"
    using assms(1) by (auto simp: fetch_one_Inr)
  obtain df' where df': "get_daily_historic_data r t (S' - 7) E = Inr df'"
    and ser': "ser' = filter (\<lambda>(d, p). S' \<le> d \<and> d \<le> E) df'"
    using assms(2) by (auto simp: fetch_one_Inr)
  have "df' = filter (\<lambda>(d, p). S' - 7 \<le> d) df"
    using get_daily_narrow [OF df, of "S' - 7"] df' assms(3) by simp
  then show ?thesis
    using assms(3) by (auto simp: ser ser' intro!: filter_cong)
qed

lemma set_update_subset: "set (AList.update k v al) \<subseteq> insert (k, v) (set al)"
  by (induction al) auto

lemma fetch_series_origin:
  "fetch_series src S E ts n sm = (Inr sm', n') \<Longrightarrow> (t, ser) \<in> set sm' \<Longrightarrow>
   (t, ser) \<in> set sm \<or> (t \<in> set ts \<and> (\<exists>k. fetch_one (src k t) t S E = Inr ser))"
proof (induction ts arbitrary: n sm)
  case Nil
  then show ?case by simp
next
  case (Cons a ts)
  from Cons.prems(1) obtain s0 where a: "fetch_one (src n a) a S E = Inr s0"
    and rest: "fetch_series src S E ts (Suc n) (AList.update a s0 sm) = (Inr sm', n')"
    by (auto split: sum.splits)
  from Cons.IH [OF rest Cons.prems(2)]
  show ?case
    using a set_update_subset [of a s0 sm] by auto
qed

lemma fetch_series_keys:
  "fetch_series src S E ts n sm = (Inr sm', n') \<Longrightarrow> fst ` set sm' = fst ` set sm \<union> set ts"
proof (induction ts arbitrary: n sm)
  case Nil
  then show ?case by simp
next
  case (Cons a ts)
  from Cons.prems(1) obtain s0 where
    rest: "fetch_series src S E ts (Suc n) (AList.update a s0 sm) = (Inr sm', n')"
    by (auto split: sum.splits)
  from Cons.IH [OF rest] show ?case
    by (auto simp: dom_update)
qed

lemma fetch_series_calls:
  "fetch_series src S E ts n sm = (Inr sm', n') \<Longrightarrow> n' = n + length ts"
proof (induction ts arbitrary: n sm)
  case Nil
  then show ?case by simp
next
  case (Cons a ts)
  from Cons.prems(1) obtain s0 where
    rest: "fetch_series src S E ts (Suc n) (AList.update a s0 sm) = (Inr sm', n')"
    by (auto split: sum.splits)
  from Cons.IH [OF rest] show ?case by simp
qed

lemma align_Inr:
  assumes "align ts sm = Inr f"
  shows "sm \<noteq> []" and "length sm = length ts" and "columns f = ts" and "rows f \<noteq> []"
    and "map fst (rows f) =
           sort (filter (\<lambda>d. \<forall>(t, s)\<in>set (tl sm). d \<in> fst ` set s) (map fst (snd (hd sm))))"
  using assms
  by (auto simp: align_def Let_def list_all_iff comp_def split: list.splits if_splits)

lemma align_dates:
  assumes "align ts sm = Inr f" and "\<forall>(t, s)\<in>set sm. distinct (map fst s)"
  shows "sorted_wrt (<) (map fst (rows f))"
    and "set (map fst (rows f)) = (\<Inter>(t, s)\<in>set sm. fst ` set s)"
proof -
  obtain t0 s0 rest where sm: "sm = (t0, s0) # rest"
    using align_Inr(1) [OF assms(1)] by (cases sm) auto
  have d: "map fst (rows f) = sort (filter (\<lambda>d. \<forall>(t, s)\<in>set rest. d \<in> fst ` set s) (map fst s0))"
    using align_Inr(5) [OF assms(1)] by (simp add: sm)
  have "distinct (map fst s0)"
    using assms(2) by (simp add: sm)
  then show "sorted_wrt (<) (map fst (rows f))"
    by (simp add: d strict_sorted_iff)
  show "set (map fst (rows f)) = (\<Inter>(t, s)\<in>set sm. fst ` set s)"
    by (auto simp: d sm)
qed

lemma fetch_prices_Inr:
  "fetch_prices src n ts S E = (Inr f, n') \<longleftrightarrow>
     (\<exists>sm. fetch_series src S E ts n [] = (Inr sm, n') \<and> align ts sm = Inr f)"
  by (auto simp: fetch_prices_def split: prod.splits sum.splits)

lemma fetch_prices_frame:
  assumes "fetch_prices src n ts S E = (Inr f, n')"
  shows "rows f \<noteq> []" and "columns f = ts" and "sorted_wrt (<) (map fst (rows f))"
    and "\<forall>d\<in>set (map fst (rows f)). S \<le> d \<and> d \<le> E" and "n' = n + length ts"
proof -
  obtain sm where fs: "fetch_series src S E ts n [] = (Inr sm, n')" and al: "align ts sm = Inr f"
    using assms by (auto simp: fetch_prices_Inr)
  have P: "ser \<noteq> [] \<and> sorted_wrt (<) (map fst ser) \<and> (\<forall>d\<in>set (map fst ser). S \<le> d \<and> d \<le> E)"
    if inS: "(t, ser) \<in> set sm" for t ser
  proof -
    obtain k where "fetch_one (src k t) t S E = Inr ser"
      using fetch_series_origin [OF fs inS] by auto
    then show ?thesis
      using fetch_one_props [of "src k t" t S E ser] by simp
  qed
  show "rows f \<noteq> []" "columns f = ts"
    using align_Inr [OF al] by auto
  show "n' = n + length ts"
    using fetch_series_calls [OF fs] .
  have dist: "\<forall>(t, s)\<in>set sm. distinct (map fst s)"
    using P by (auto simp: strict_sorted_iff)
  show "sorted_wrt (<) (map fst (rows f))"
    using align_dates(1) [OF al dist] .
  obtain t0 s0 where "(t0, s0) \<in> set sm"
    using align_Inr(1) [OF al] by (cases sm) auto
  then show "\<forall>d\<in>set (map fst (rows f)). S \<le> d \<and> d \<le> E"
    using P [of t0 s0] align_dates(2) [OF al dist] by auto
qed

lemma fetch_prices_narrow:
  assumes "fetch_prices (\<lambda>k. w) n ts S E = (Inr f, n1)"
    and "fetch_prices (\<lambda>k. w) m ts S' E = (Inr f', m1)"
    and "S \<le> S'"
  shows "set (map fst (rows f')) \<subseteq> {d \<in> set (map fst (rows f)). S' \<le> d}"
proof -
  obtain sm where fs: "fetch_series (\<lambda>k. w) S E ts n [] = (Inr sm, n1)" and al: "align ts sm = Inr f"
    using assms(1) by (auto simp: fetch_prices_Inr)
  obtain sm' where fs': "fetch_series (\<lambda>k. w) S' E ts m [] = (Inr sm', m1)"
    and al': "align ts sm' = Inr f'"
    using assms(2) by (auto simp: fetch_prices_Inr)
  have dist: "\<forall>(t, s)\<in>set sm. distinct (map fst s)"
    using fetch_series_origin [OF fs] fetch_one_props(2) by (fastforce simp: strict_sorted_iff)
  have dist': "\<forall>(t, s)\<in>set sm'. distinct (map fst s)"
    using fetch_series_origin [OF fs'] fetch_one_props(2) by (fastforce simp: strict_sorted_iff)
  have D: "fst ` set (rows f) = (\<Inter>(t, s)\<in>set sm. fst ` set s)"
    using align_dates(2) [OF al dist] by simp
  have D': "fst ` set (rows f') = (\<Inter>(t, s)\<in>set sm'. fst ` set s)"
    using align_dates(2) [OF al' dist'] by simp
  show ?thesis
  proof
    fix d assume "d \<in> set (map fst (rows f'))"
    then have d: "d \<in> fst ` set (rows f')" by simp
    have "S' \<le> d"
      using d fetch_prices_frame(4) [OF assms(2)] by auto
    moreover have "d \<in> fst ` set ser" if "(t, ser) \<in> set sm" for t ser
    proof -
      have t: "t \<in> set ts" and one: "fetch_one (w t) t S E = Inr ser"
        using fetch_series_origin [OF fs that] by auto
      from t have "t \<in> fst ` set sm'"
        using fetch_series_keys [OF fs'] by simp
      then obtain ser' where in': "(t, ser') \<in> set sm'" by auto
      then have one': "fetch_one (w t) t S' E = Inr ser'"
        using fetch_series_origin [OF fs' in'] by auto
      have "d \<in> fst ` set ser'"
        using d in' unfolding D' by blast
      then show ?thesis
        using fetch_one_narrow [OF one one' assms(3)] by auto
    qed
    ultimately have "d \<in> fst ` set (rows f)" "S' \<le> d"
      unfolding D by blast+
    then show "d \<in> {d \<in> set (map fst (rows f)). S' \<le> d}"
      by simp
  qed
qed

lemma fetch_series_each:
  "fetch_series src S E ts n sm = (Inr sm', n') \<Longrightarrow> i < length ts \<Longrightarrow>
   \<exists>ser. fetch_one (src (n + i) (ts ! i)) (ts ! i) S E = Inr ser"
proof (induction ts arbitrary: n sm i)
  case Nil
  then show ?case by simp
next
  case (Cons a ts)
  from Cons.prems(1) obtain s0 where a: "fetch_one (src n a) a S E = Inr s0"
    and rest: "fetch_series src S E ts (Suc n) (AList.update a s0 sm) = (Inr sm', n')"
    by (auto split: sum.splits)
  show ?case
  proof (cases i)
    case 0
    then show ?thesis using a by simp
  next
    case (Suc j)
    then have "j < length ts" using Cons.prems(2) by simp
    from Cons.IH [OF rest this] show ?thesis by (simp add: Suc)
  qed
qed

lemma fetch_series_abort:
  "\<forall>i<length pre. \<exists>ser. fetch_one (src (n + i) (pre ! i)) (pre ! i) S E = Inr ser \<Longrightarrow>
   fetch_one (src (n + length pre) t) t S E = Inl e \<Longrightarrow>
   fetch_series src S E (pre @ t # post) n sm = (Inl e, Suc (n + length pre))"
proof (induction pre arbitrary: n sm)
  case Nil
  then show ?case by simp
next
  case (Cons a pre)
  from Cons.prems(1) obtain s0 where a: "fetch_one (src n a) a S E = Inr s0"
    by fastforce
  have "\<forall>i<length pre. \<exists>ser. fetch_one (src (Suc n + i) (pre ! i)) (pre ! i) S E = Inr ser"
  proof (intro allI impI)
    fix i assume "i < length pre"
    then have "Suc i < length (a # pre)" by simp
    from Cons.prems(1) [rule_format, OF this] show "\<exists>ser. fetch_one (src (Suc n + i) (pre ! i)) (pre ! i) S E = Inr ser"
      by simp
  qed
  moreover have "fetch_one (src (Suc n + length pre) t) t S E = Inl e"
    using Cons.prems(2) by simp
  ultimately have "fetch_series src S E (pre @ t # post) (Suc n) (AList.update a s0 sm)
      = (Inl e, Suc (Suc n + length pre))"
    by (rule Cons.IH)
  then show ?case using a by simp
qed

lemma fetch_one_empty:
  "get_daily_historic_data resp t (S - 7) E = Inr df \<Longrightarrow>
   filter (\<lambda>(d, p). S \<le> d \<and> d \<le> E) df = [] \<Longrightarrow>
   fetch_one resp t S E = Inl (if df = [] then NoDataReturned t else NoDataInWindow t)"
  by (simp add: fetch_one_def)

text \<open>
  C10, as amended. A response without the time-series dictionary (HTTP error, body that is
  not JSON, rate-limit note, error message for an invalid symbol, unknown payload) makes
  \<open>get_daily_historic_data\<close> return the empty DataFrame. In \<open>fetch_prices\<close>, the first
  ticker whose DataFrame is empty, or has no row inside the requested window, aborts the
  fetch with an error that names this ticker, after exactly the requests made so far.
  When \<open>fetch_prices\<close> returns a frame, every ticker's request gave a series that is not
  empty and lies inside the window. Nothing is said of a response whose time series holds
  a malformed bar inside the queried window: there the client raises.
\<close>

theorem upstream_failure_handling:
  "((\<forall>data. resp \<noteq> TimeSeries data) \<longrightarrow> get_daily_historic_data resp t s e = Inr [])
   \<and> ((\<forall>i<length pre. \<exists>ser. fetch_one (src (n + i) (pre ! i)) (pre ! i) S E = Inr ser)
        \<and> get_daily_historic_data (src (n + length pre) t) t (S - 7) E = Inr df
        \<and> filter (\<lambda>(d, p). S \<le> d \<and> d \<le> E) df = [] \<longrightarrow>
        fetch_prices src n (pre @ t # post) S E =
          (Inl (if df = [] then NoDataReturned t else NoDataInWindow t), Suc (n + length pre)))
   \<and> (fetch_prices src n tickers S E = (Inr f, n') \<longrightarrow>
        (\<forall>i<length tickers. \<exists>ser. fetch_one (src (n + i) (tickers ! i)) (tickers ! i) S E = Inr ser
           \<and> ser \<noteq> [] \<and> (\<forall>d\<in>set (map fst ser). S \<le> d \<and> d \<le> E)))"
proof (intro conjI impI)
  assume "\<forall>data. resp \<noteq> TimeSeries data"
  then show "get_daily_historic_data resp t s e = Inr []"
    by (cases resp) auto
next
  assume a: "(\<forall>i<length pre. \<exists>ser. fetch_one (src (n + i) (pre ! i)) (pre ! i) S E = Inr ser)
        \<and> get_daily_historic_data (src (n + length pre) t) t (S - 7) E = Inr df
        \<and> filter (\<lambda>(d, p). S \<le> d \<and> d \<le> E) df = []"
  then have "fetch_one (src (n + length pre) t) t S E
      = Inl (if df = [] then NoDataReturned t else NoDataInWindow t)"
    using fetch_one_empty by blast
  with a have "fetch_series src S E (pre @ t # post) n []
      = (Inl (if df = [] then NoDataReturned t else NoDataInWindow t), Suc (n + length pre))"
    using fetch_series_abort by blast
  then show "fetch_prices src n (pre @ t # post) S E =
          (Inl (if df = [] then NoDataReturned t else NoDataInWindow t), Suc (n + length pre))"
    by (simp add: fetch_prices_def)
next
  assume "fetch_prices src n tickers S E = (Inr f, n')"
  then obtain sm where fs: "fetch_series src S E tickers n [] = (Inr sm, n')"
    by (auto simp: fetch_prices_Inr)
  show "\<forall>i<length tickers. \<exists>ser. fetch_one (src (n + i) (tickers ! i)) (tickers ! i) S E = Inr ser
           \<and> ser \<noteq> [] \<and> (\<forall>d\<in>set (map fst ser). S \<le> d \<and> d \<le> E)"
  proof (intro allI impI)
    fix i assume "i < length tickers"
    from fetch_series_each [OF fs this] obtain ser
      where one: "fetch_one (src (n + i) (tickers ! i)) (tickers ! i) S E = Inr ser" by blast
    show "\<exists>ser. fetch_one (src (n + i) (tickers ! i)) (tickers ! i) S E = Inr ser
           \<and> ser \<noteq> [] \<and> (\<forall>d\<in>set (map fst ser). S \<le> d \<and> d \<le> E)"
      using one fetch_one_props(1,3) [OF one] by blast
  qed
qed

text \<open>
  C10 as stated fails: a response that carries the time-series dictionary with a bar that
  lacks its fields is a malformed response, and \<open>get_daily_historic_data\<close> raises on it
  (line 102 is outside the \<^verbatim>\<open>try\<close> block) instead of returning the empty DataFrame.
\<close>

theorem malformed_bar_raises:
  "get_daily_historic_data (TimeSeries [(738887, None)]) ''A'' 738879 738888
     = Inl (MalformedBar ''A'' 738887)"
  by simp

text \<open>
  C7. For a series map with one series per ticker, each series holding a date at most
  once: if no date is common to all series the alignment fails with
  \<open>NoOverlappingTradingDays\<close>; otherwise it returns a frame whose columns are the tickers
  in the caller's order, whose row dates are the common dates in ascending order (a
  function of the set of series alone, so independent of their order), and whose cell
  \<open>j\<close> in the row of date \<open>d\<close> is the price of the \<open>j\<close>-th series at \<open>d\<close>.
\<close>

theorem align_intersection:
  assumes "series_map \<noteq> []" and "length series_map = length tickers"
    and "\<forall>(t, s)\<in>set series_map. distinct (map fst s)"
  shows "((\<Inter>(t, s)\<in>set series_map. fst ` set s) = {} \<longrightarrow>
            align tickers series_map = Inl NoOverlappingTradingDays)
       \<and> ((\<Inter>(t, s)\<in>set series_map. fst ` set s) \<noteq> {} \<longrightarrow>
            (\<exists>f. align tickers series_map = Inr f
               \<and> columns f = tickers
               \<and> map fst (rows f) = sorted_list_of_set (\<Inter>(t, s)\<in>set series_map. fst ` set s)
               \<and> (\<forall>(d, ps)\<in>set (rows f). length ps = length tickers
                     \<and> (\<forall>j<length tickers. map_of (snd (series_map ! j)) d = Some (ps ! j)))))"
proof -
  obtain t0 s0 rest where sm: "series_map = (t0, s0) # rest"
    using assms(1) by (cases series_map) auto
  define common where "common = filter (\<lambda>d. list_all (\<lambda>(t, s). d \<in> set (map fst s)) rest) (map fst s0)"
  define body where "body = map (\<lambda>d. (d, map (\<lambda>(t, s). the (map_of s d)) series_map)) (sort common)"
  have al: "align tickers series_map =
      (if body = [] then Inl NoOverlappingTradingDays else Inr \<lparr>columns = tickers, rows = body\<rparr>)"
    using assms(2) by (simp add: align_def sm body_def common_def Let_def)
  have cs: "set common = (\<Inter>(t, s)\<in>set series_map. fst ` set s)"
    by (auto simp: common_def sm list_all_iff)
  have dc: "distinct common"
    using assms(3) by (simp add: common_def sm)
  have dates: "map fst body = sort common"
    by (simp add: body_def comp_def)
  have empty: "body = [] \<longleftrightarrow> (\<Inter>(t, s)\<in>set series_map. fst ` set s) = {}"
    using cs by (simp add: body_def flip: set_empty)
  have sl: "sort common = sorted_list_of_set (\<Inter>(t, s)\<in>set series_map. fst ` set s)"
    using dc by (simp add: sorted_list_of_set_sort_remdups distinct_remdups_id flip: cs)
  have cells: "length ps = length tickers
      \<and> (\<forall>j<length tickers. map_of (snd (series_map ! j)) d = Some (ps ! j))"
    if "(d, ps) \<in> set body" for d ps
  proof -
    from that have ps: "ps = map (\<lambda>(t, s). the (map_of s d)) series_map" and d: "d \<in> set common"
      by (auto simp: body_def)
    have "map_of (snd (series_map ! j)) d = Some (ps ! j)" if j: "j < length tickers" for j
    proof -
      have "series_map ! j \<in> set series_map"
        using j assms(2) by simp
      moreover have "\<forall>x\<in>set series_map. d \<in> fst ` set (snd x)"
        using d unfolding cs by (auto simp: split_def)
      ultimately have "d \<in> fst ` set (snd (series_map ! j))"
        by blast
      then obtain p where "map_of (snd (series_map ! j)) d = Some p"
        by (metis domD dom_map_of_conv_image_fst)
      then show ?thesis
        using j assms(2) by (simp add: ps split_def)
    qed
    then show ?thesis
      using assms(2) by (simp add: ps)
  qed
  show ?thesis
    using al empty dates sl cells by auto
qed

section \<open>Evaluations on the example inputs\<close>

lemma fetch_one_example_A:
  "fetch_one (example_source n ''A'') ''A'' 738886 738888
     = Inr [(738886, 100), (738887, 110), (738888, 121)]"
  by (simp add: example_source_def fetch_one_def)

lemma fetch_one_example_B:
  "fetch_one (example_source n ''B'') ''B'' 738886 738888
     = Inr [(738886, 50), (738887, 45), (738888, 40.5)]"
  by (simp add: example_source_def fetch_one_def)

lemma fetch_prices_example:
  "fetch_prices example_source n [''A'', ''B''] 738886 738888 = (Inr example_frame, Suc (Suc n))"
  by (simp add: fetch_prices_def fetch_one_example_A fetch_one_example_B align_def
      example_frame_def)

text \<open>
  The theorem at the example provider: a rate-limit note, the unknown ticker \<open>C\<close> between
  \<open>A\<close> and \<open>B\<close>, and the successful fetch of \<open>A\<close> and \<open>B\<close>.
\<close>

theorem upstream_failure_handling_witness:
  "get_daily_historic_data (ApiNote ''rate limit'') ''C'' 738879 738888 = Inr []
   \<and> fetch_one (example_source 0 ''A'') ''A'' 738886 738888
        = Inr [(738886, 100), (738887, 110), (738888, 121)]
   \<and> get_daily_historic_data (example_source 1 ''C'') ''C'' (738886 - 7) 738888 = Inr []
   \<and> fetch_prices example_source 0 ([''A''] @ ''C'' # [''B'']) 738886 738888
        = (Inl (NoDataReturned ''C''), 2)
   \<and> fetch_prices example_source 0 [''A'', ''B''] 738886 738888 = (Inr example_frame, 2)
   \<and> (\<exists>ser. fetch_one (example_source 0 ''A'') ''A'' 738886 738888 = Inr ser
          \<and> ser \<noteq> [] \<and> (\<forall>d\<in>set (map fst ser). 738886 \<le> d \<and> d \<le> 738888))
   \<and> (\<exists>ser. fetch_one (example_source 1 ''B'') ''B'' 738886 738888 = Inr ser
          \<and> ser \<noteq> [] \<and> (\<forall>d\<in>set (map fst ser). 738886 \<le> d \<and> d \<le> 738888))"
proof -
  have pre: "\<forall>i<length [''A'']. \<exists>ser.
          fetch_one (example_source (0 + i) ([''A''] ! i)) ([''A''] ! i) 738886 738888 = Inr ser"
    by (simp add: fetch_one_example_A)
  have gd: "get_daily_historic_data (example_source (0 + length [''A'']) ''C'') ''C'' (738886 - 7) 738888
        = Inr []"
    by (simp add: example_source_def)
  have fp: "fetch_prices example_source 0 [''A'', ''B''] 738886 738888 = (Inr example_frame, 2)"
    using fetch_prices_example [of 0] by simp
  note t = upstream_failure_handling [where resp = "ApiNote ''rate limit''" and t = "''C''"
        and s = 738879 and e = 738888 and pre = "[''A'']" and src = example_source and n = 0
        and S = 738886 and E = 738888 and df = "[]" and post = "[''B'']"
        and tickers = "[''A'', ''B'']" and f = example_frame and n' = 2]
  have 1: "get_daily_historic_data (ApiNote ''rate limit'') ''C'' 738879 738888 = Inr []"
    using t by simp
  have 2: "fetch_prices example_source 0 ([''A''] @ ''C'' # [''B'']) 738886 738888
        = (Inl (NoDataReturned ''C''), 2)"
    using t pre gd by simp
  have 3: "\<forall>i<length [''A'', ''B'']. \<exists>ser.
          fetch_one (example_source (0 + i) ([''A'', ''B''] ! i)) ([''A'', ''B''] ! i) 738886 738888
            = Inr ser
          \<and> ser \<noteq> [] \<and> (\<forall>d\<in>set (map fst ser). 738886 \<le> d \<and> d \<le> 738888)"
    using t fp by blast
  have 4: "\<exists>ser. fetch_one (example_source 0 ''A'') ''A'' 738886 738888 = Inr ser
          \<and> ser \<noteq> [] \<and> (\<forall>d\<in>set (map fst ser). 738886 \<le> d \<and> d \<le> 738888)"
    using 3 [rule_format, of 0] by simp
  have 5: "\<exists>ser. fetch_one (example_source 1 ''B'') ''B'' 738886 738888 = Inr ser
          \<and> ser \<noteq> [] \<and> (\<forall>d\<in>set (map fst ser). 738886 \<le> d \<and> d \<le> 738888)"
    using 3 [rule_format, of 1] by simp
  show ?thesis
    using 1 2 4 5 fp gd fetch_one_example_A [of 0] by simp
qed

lemma ragged_common: "(\<Inter>(t, s)\<in>set ragged_series. fst ` set s) = {2, 3}"
  by (auto simp: ragged_series_def)

text \<open>The three ragged series align on the rows 2 and 3, in either order.\<close>

theorem align_intersection_witness:
  "ragged_series \<noteq> [] \<and> length ragged_series = length [''X'', ''Y'', ''Z'']
   \<and> list_all (\<lambda>(t, s). distinct (map fst s)) ragged_series
   \<and> (\<exists>f. align [''X'', ''Y'', ''Z''] ragged_series = Inr f
         \<and> columns f = [''X'', ''Y'', ''Z'']
         \<and> map fst (rows f) = [2, 3]
         \<and> (\<forall>(d, ps)\<in>set (rows f). length ps = length [''X'', ''Y'', ''Z'']
               \<and> (\<forall>j<length [''X'', ''Y'', ''Z'']. map_of (snd (ragged_series ! j)) d = Some (ps ! j))))"
proof -
  have h: "ragged_series \<noteq> []" "length ragged_series = length [''X'', ''Y'', ''Z'']"
    "\<forall>(t, s)\<in>set ragged_series. distinct (map fst s)"
    by (simp_all add: ragged_series_def)
  have s: "sorted_list_of_set {2, 3 :: int} = [2, 3]"
    by (simp add: sorted_list_of_set_sort_remdups [of "[2, 3]", simplified])
  show ?thesis
    using align_intersection [OF h] h by (simp add: ragged_common s list_all_iff)
qed

lemma align_ragged_rev:
  "\<exists>f. align [''Z'', ''Y'', ''X''] (rev ragged_series) = Inr f \<and> map fst (rows f) = [2, 3]"
  by (simp add: align_def ragged_series_def)

lemma load_example_cfg:
  "load_api_key example_cfg = Inr ''demo''"
  "load_rebalance_date example_cfg = Inr 738886"
  "load_base_portfolio example_cfg = Inr example_portfolio"
  "clock_today example_cfg = 738888"
  by (simp_all add: load_api_key_def load_rebalance_date_def load_base_portfolio_def
      example_cfg_def example_base_def example_portfolio_def pf_row.defs)

lemma load_example_history: "load_net_values example_history = example_history"
  by (simp add: load_net_values_def example_history_def)

lemma choose_up_to_date: "choose_existing up_to_date_state = Inr (Some example_history)"
  by (simp add: choose_existing_def existing_candidates_def up_to_date_state_def
      load_example_history)

lemma last_example_history:
  "example_history \<noteq> []" "date (last example_history) = 738888"
  "net_value (last example_history) = 1.05"
  by (simp_all add: example_history_def)

text \<open>
  C1 fails on the code. With a history whose last date is today, \<open>main\<close> returns at line
  194: no request is made and the live portfolio file is not rewritten, whatever the
  provider would answer, although line 211 announces that the live weights are always
  refreshed.
\<close>

theorem main_up_to_date_returns_early:
  "main example_cfg src up_to_date_state = (Done, up_to_date_state)"
  by (simp add: main_def load_example_cfg choose_up_to_date update_history_def
      last_example_history)

lemma compute_example_frame:
  "compute_net_values example_frame [3 / 5, 2 / 5] 1 =
   Inr [\<lparr>date = 738886, net_value = 1, pct_change = 0\<rparr>,
        \<lparr>date = 738887, net_value = 1.02, pct_change = 0.02\<rparr>,
        \<lparr>date = 738888, net_value = 1.05, pct_change = 1.05 / 1.02 - 1\<rparr>]"
  by (simp add: compute_net_values_def pct_change_raw_def fillna_def example_frame_def)



lemma choose_fresh: "choose_existing fresh_state = Inr None"
  by (simp add: choose_existing_def existing_candidates_def fresh_state_def)

lemma calls_fresh: "calls fresh_state = 0" "net_values_csv fresh_state = None"
  by (simp_all add: fresh_state_def)

lemma example_portfolio_columns:
  "map ticker example_portfolio = [''A'', ''B'']"
  "map weight_frac example_portfolio = [3 / 5, 2 / 5]"
  by (simp_all add: example_portfolio_def)



lemma refresh_keeps_history:
  "net_values_csv (snd (refresh_live_weights rb bp td src s)) = net_values_csv s"
  "legacy_csv (snd (refresh_live_weights rb bp td src s)) = legacy_csv s"
  by (auto simp: refresh_live_weights_def Let_def split: prod.splits sum.splits)

lemma load_rebalanced_cfg:
  "load_api_key rebalanced_cfg = Inr ''demo''"
  "load_rebalance_date rebalanced_cfg = Inr 738895"
  "load_base_portfolio rebalanced_cfg = Inr example_portfolio"
  "clock_today rebalanced_cfg = 738897"
  by (simp_all add: load_api_key_def load_rebalance_date_def load_base_portfolio_def
      rebalanced_cfg_def example_base_def example_portfolio_def pf_row.defs)

lemma fetch_prices_later:
  "fetch_prices later_source n [''A'', ''B''] 738895 738897 = (Inr later_frame, Suc (Suc n))"
  by (simp add: fetch_prices_def fetch_one_def later_source_def align_def later_frame_def)

lemma compute_later_frame:
  "compute_net_values later_frame [3 / 5, 2 / 5] (21 / 20) =
   Inr [\<lparr>date = 738895, net_value = 1.05, pct_change = 0\<rparr>,
        \<lparr>date = 738896, net_value = 1.113, pct_change = 0.06\<rparr>,
        \<lparr>date = 738897, net_value = 1.218, pct_change = 1.218 / 1.113 - 1\<rparr>]"
  by (simp add: compute_net_values_def pct_change_raw_def fillna_def later_frame_def)

lemma up_to_date_fields:
  "calls up_to_date_state = 0" "net_values_csv up_to_date_state = Some example_history"
  by (simp_all add: up_to_date_state_def)

lemma main_rebalanced_history:
  "net_values_csv (snd (main rebalanced_cfg later_source up_to_date_state)) =
       Some (example_history @
         [\<lparr>date = 738896, net_value = 1.113, pct_change = 0.06\<rparr>,
          \<lparr>date = 738897, net_value = 1.218, pct_change = 1.218 / 1.113 - 1\<rparr>])"
proof -
  have "update_history 738895 example_portfolio 738897 later_source (Some example_history)
          up_to_date_state
      = Continue (up_to_date_state\<lparr>net_values_csv := Some (example_history @
         [\<lparr>date = 738896, net_value = 1.113, pct_change = 0.06\<rparr>,
          \<lparr>date = 738897, net_value = 1.218, pct_change = 1.218 / 1.113 - 1\<rparr>]), calls := 2\<rparr>)"
    by (simp add: update_history_def last_example_history example_portfolio_columns
        fetch_prices_later compute_later_frame up_to_date_fields)
  then show ?thesis
    by (simp add: main_def load_rebalanced_cfg choose_up_to_date refresh_keeps_history)
qed

text \<open>
  C3 fails on the code. When the rebalance date is later than the last date of the
  history, the window starts at the rebalance date: the first row of the computed segment
  is the row of 2024-01-10, not of the last date 2024-01-03, and line 200 still drops it
  as "duplicate last_date", so the merged history has no row for 2024-01-10.
\<close>

theorem first_segment_row_is_not_last_date:
  "date (last example_history) = 738888
   \<and> fst (fetch_prices later_source 0 [''A'', ''B''] (max 738895 738888) 738897) = Inr later_frame
   \<and> fst (hd (rows later_frame)) = 738895
   \<and> net_values_csv (snd (main rebalanced_cfg later_source up_to_date_state)) =
       Some (example_history @
         [\<lparr>date = 738896, net_value = 1.113, pct_change = 0.06\<rparr>,
          \<lparr>date = 738897, net_value = 1.218, pct_change = 1.218 / 1.113 - 1\<rparr>])"
  by (simp add: main_rebalanced_history last_example_history fetch_prices_later later_frame_def)

section \<open>Properties of the live weights\<close>


section \<open>Properties of the orchestrator\<close>

lemma set_drop_duplicates_last:
  "set (map date (drop_duplicates_last rs)) = set (map date rs)"
  by (induction rs) auto

lemma drop_duplicates_last_subset: "set (drop_duplicates_last rs) \<subseteq> set rs"
  by (induction rs) auto

lemma drop_duplicates_last_sorted:
  "sorted (map date rs) \<Longrightarrow> sorted_wrt (<) (map date (drop_duplicates_last rs))"
proof (induction rs)
  case Nil
  then show ?case by simp
next
  case (Cons r rs)
  have IH: "sorted_wrt (<) (map date (drop_duplicates_last rs))"
    using Cons by simp
  show ?case
  proof (cases "date r \<in> set (map date rs)")
    case True
    then show ?thesis using IH by simp
  next
    case False
    have "\<forall>d\<in>set (map date (drop_duplicates_last rs)). date r < d"
    proof
      fix d assume "d \<in> set (map date (drop_duplicates_last rs))"
      then have "d \<in> set (map date rs)"
        by (simp only: set_drop_duplicates_last)
      then show "date r < d"
        using Cons.prems False by (cases "date r = d") auto
    qed
    then show ?thesis using False IH by simp
  qed
qed

lemma drop_duplicates_last_id:
  "distinct (map date rs) \<Longrightarrow> drop_duplicates_last rs = rs"
  by (induction rs) auto

lemma load_net_values_sorted: "sorted_wrt (<) (map date (load_net_values df))"
  unfolding load_net_values_def
  by (rule drop_duplicates_last_sorted) simp

lemma load_net_values_id:
  "sorted_wrt (<) (map date df) \<Longrightarrow> load_net_values df = df"
  by (simp add: load_net_values_def strict_sorted_iff sort_key_id_if_sorted
      drop_duplicates_last_id)

lemma load_net_values_dates: "date ` set (load_net_values df) = date ` set df"
  using set_drop_duplicates_last [of "sort_key date df"]
  by (simp add: load_net_values_def)

lemma load_net_values_Nil: "load_net_values df = [] \<longleftrightarrow> df = []"
  using load_net_values_dates [of df] by (metis image_is_empty set_empty)

lemma fold_min_least: "\<forall>x\<in>set ds. d \<le> x \<Longrightarrow> fold min ds d = (d::int)"
  by (induction ds) (auto simp: min_def)

lemma fold_min_Min: "fold min ds d = Min (insert (d::int) (set ds))"
  by (simp add: Min.set_eq_fold [symmetric])

lemma date_min_None: "date_min df = None \<longleftrightarrow> df = []"
  by (cases df) (auto simp: date_min_def)

lemma date_min_Min: "df \<noteq> [] \<Longrightarrow> date_min df = Some (Min (date ` set df))"
  by (cases df) (auto simp: date_min_def fold_min_Min)

lemma date_min_sorted:
  "sorted_wrt (<) (map date df) \<Longrightarrow> df \<noteq> [] \<Longrightarrow> date_min df = Some (date (hd df))"
  by (cases df) (auto simp: date_min_def intro!: fold_min_least less_imp_le)

lemma py_min_member: "py_min best xs = Inr c \<Longrightarrow> c \<in> set (best # xs)"
  by (induction xs arbitrary: best) (auto split: option.splits if_splits)

lemma choose_existing_sorted:
  assumes "choose_existing s = Inr (Some E)"
  shows "sorted_wrt (<) (map date E)"
proof -
  from assms obtain x xs where l: "map load_net_values (existing_candidates s) = x # xs"
    and p: "py_min x xs = Inr E"
    by (auto simp: choose_existing_def split: list.splits sum.splits)
  from py_min_member [OF p] have "E \<in> set (map load_net_values (existing_candidates s))"
    by (simp only: l)
  then show ?thesis
    using load_net_values_sorted by auto
qed

lemma update_history_Return:
  "update_history rb bp td src ex s = Return s' \<Longrightarrow> s' = s"
  by (auto simp: update_history_def Let_def split: if_splits prod.splits sum.splits)

lemma update_history_Raise:
  "update_history rb bp td src ex s = Raise e s' \<Longrightarrow>
   net_values_csv s' = net_values_csv s \<and> legacy_csv s' = legacy_csv s
   \<and> portfolio_csv s' = portfolio_csv s"
  by (auto simp: update_history_def Let_def split: if_splits prod.splits sum.splits)

lemma update_history_existing:
  "E \<noteq> [] \<Longrightarrow>
   update_history rb bp td src (Some E) s =
     (if td \<le> date (last E) then Return s
      else (case fetch_prices src (calls s) (map ticker bp) (max rb (date (last E))) td of
              (Inl e, n) \<Rightarrow> Raise e (s\<lparr>calls := n\<rparr>)
            | (Inr f, n) \<Rightarrow>
                (case compute_net_values f (map weight_frac bp) (net_value (last E)) of
                   Inl e \<Rightarrow> Raise e (s\<lparr>calls := n\<rparr>)
                 | Inr nv \<Rightarrow>
                     Continue (s\<lparr>net_values_csv := Some (E @ drop 1 nv), calls := n\<rparr>))))"
  by (simp add: update_history_def Let_def split: prod.splits sum.splits)

lemma update_history_fresh:
  "ex = None \<or> ex = Some [] \<Longrightarrow>
   update_history rb bp td src ex s =
     (if td \<le> rb then Raise BeforeRebalance s
      else (case fetch_prices src (calls s) (map ticker bp) rb td of
              (Inl e, n) \<Rightarrow> Raise e (s\<lparr>calls := n\<rparr>)
            | (Inr f, n) \<Rightarrow>
                (case compute_net_values f (map weight_frac bp) 1 of
                   Inl e \<Rightarrow> Raise e (s\<lparr>calls := n\<rparr>)
                 | Inr nv \<Rightarrow> Continue (s\<lparr>net_values_csv := Some nv, calls := n\<rparr>))))"
  by (auto simp: update_history_def Let_def split: prod.splits sum.splits)

lemma update_history_Continue:
  assumes "update_history rb bp td src ex s = Continue s'"
  shows "(\<exists>E f n nv. ex = Some E \<and> E \<noteq> [] \<and> date (last E) < td
            \<and> fetch_prices src (calls s) (map ticker bp) (max rb (date (last E))) td = (Inr f, n)
            \<and> compute_net_values f (map weight_frac bp) (net_value (last E)) = Inr nv
            \<and> s' = s\<lparr>net_values_csv := Some (E @ drop 1 nv), calls := n\<rparr>)
       \<or> ((ex = None \<or> ex = Some []) \<and> rb < td
            \<and> (\<exists>f n nv. fetch_prices src (calls s) (map ticker bp) rb td = (Inr f, n)
                  \<and> compute_net_values f (map weight_frac bp) 1 = Inr nv
                  \<and> s' = s\<lparr>net_values_csv := Some nv, calls := n\<rparr>))"
proof (cases "ex = None \<or> ex = Some []")
  case True
  note eq = update_history_fresh [OF True, of rb bp td src s]
  have td: "rb < td"
    using assms eq by (cases "td \<le> rb") auto
  obtain r n where fp: "fetch_prices src (calls s) (map ticker bp) rb td = (r, n)"
    by (cases "fetch_prices src (calls s) (map ticker bp) rb td")
  obtain f where r: "r = Inr f"
    using assms eq td fp by (cases r) auto
  obtain nv where nv: "compute_net_values f (map weight_frac bp) 1 = Inr nv"
    using assms eq td fp r by (cases "compute_net_values f (map weight_frac bp) 1") auto
  have "s' = s\<lparr>net_values_csv := Some nv, calls := n\<rparr>"
    using assms eq td fp r nv by simp
  then show ?thesis
    using True td fp r nv by blast
next
  case False
  then obtain E where E: "ex = Some E" "E \<noteq> []" by auto
  note eq = update_history_existing [OF E(2), of rb bp td src s]
  have td: "date (last E) < td"
    using assms eq E by (cases "td \<le> date (last E)") auto
  obtain r n where
    fp: "fetch_prices src (calls s) (map ticker bp) (max rb (date (last E))) td = (r, n)"
    by (cases "fetch_prices src (calls s) (map ticker bp) (max rb (date (last E))) td")
  obtain f where r: "r = Inr f"
    using assms eq td fp E by (cases r) auto
  obtain nv where nv: "compute_net_values f (map weight_frac bp) (net_value (last E)) = Inr nv"
    using assms eq td fp r E
    by (cases "compute_net_values f (map weight_frac bp) (net_value (last E))") auto
  have "s' = s\<lparr>net_values_csv := Some (E @ drop 1 nv), calls := n\<rparr>"
    using assms eq td fp r nv E by simp
  then show ?thesis
    using E td fp r nv by blast
qed

lemma refresh_files:
  "refresh_live_weights rb bp td src s = (x, s') \<Longrightarrow>
   net_values_csv s' = net_values_csv s \<and> legacy_csv s' = legacy_csv s"
  by (auto simp: refresh_live_weights_def Let_def split: prod.splits sum.splits)


lemma main_cases:
  assumes "main cfg src s = (x, s')"
  shows "(s' = s \<and> (\<exists>e. x = Fatal e))
       \<or> (\<exists>rb bp ex. load_rebalance_date cfg = Inr rb \<and> load_base_portfolio cfg = Inr bp
             \<and> choose_existing s = Inr ex
             \<and> (case update_history rb bp (clock_today cfg) src ex s of
                   Return s1 \<Rightarrow> x = Done \<and> s' = s1
                 | Raise e s1 \<Rightarrow> x = Fatal e \<and> s' = s1
                 | Continue s1 \<Rightarrow>
                     refresh_live_weights rb bp (clock_today cfg) src s1 = (x, s')))"
  using assms
  by (auto simp: main_def split: sum.splits step.splits)

lemma compute_net_values_dates:
  assumes "compute_net_values f w v = Inr nv"
  shows "map date nv = map fst (rows f)"
proof -
  have ne: "rows f \<noteq> []"
    using assms by (auto simp: compute_net_values_def)
  define xs where "xs = nv_list f w v"
  have len: "length xs = length (rows f)"
    by (simp add: xs_def length_nv_list)
  have nv: "nv = map (\<lambda>((d, ps), x, c). \<lparr>date = d, net_value = x, pct_change = c\<rparr>)
            (zip (rows f) (zip xs (fillna 0 (pct_change_raw xs))))"
    using compute_net_values_Inr [OF ne, of w v] assms by (simp add: xs_def)
  show ?thesis
    by (rule nth_equalityI)
      (simp_all add: nv len length_fillna length_pct_change_raw split_def)
qed

lemma strict_sorted_tail_above:
  "sorted_wrt (<) (ds :: int list) \<Longrightarrow> y \<in> set (drop 1 ds) \<Longrightarrow> hd ds < y"
  by (cases ds) auto

lemma sorted_below_last:
  "sorted (xs :: int list) \<Longrightarrow> x \<in> set xs \<Longrightarrow> x \<le> last xs"
  by (induction xs) auto

lemma merged_sorted:
  assumes "sorted_wrt (<) (map date E)" and "E \<noteq> []"
    and "fetch_prices src n ts S td = (Inr f, n')" and "date (last E) \<le> S"
    and "compute_net_values f w v = Inr nv"
  shows "sorted_wrt (<) (map date (E @ drop 1 nv))"
    and "\<forall>r\<in>set (drop 1 nv). date (last E) < date r"
proof -
  have ds: "map date nv = map fst (rows f)"
    using compute_net_values_dates [OF assms(5)] .
  have srt: "sorted_wrt (<) (map date nv)" and ne: "nv \<noteq> []"
    and win: "\<forall>d\<in>set (map date nv). S \<le> d"
    using fetch_prices_frame(1,3,4) [OF assms(3)] ds by auto
  have hd: "S \<le> hd (map date nv)"
    using win ne by (cases nv) auto
  have above: "date (last E) < d" if "d \<in> set (drop 1 (map date nv))" for d
    using strict_sorted_tail_above [OF srt that] hd assms(4) by linarith
  show 2: "\<forall>r\<in>set (drop 1 nv). date (last E) < date r"
    using above by (auto simp: drop_map)
  have below: "date x \<le> date (last E)" if "x \<in> set E" for x
  proof -
    have "sorted (map date E)"
      using assms(1) by (simp add: strict_sorted_iff)
    from sorted_below_last [OF this, of "date x"] that assms(2) show ?thesis
      by (simp add: last_map)
  qed
  have "sorted_wrt (<) (drop 1 (map date nv))"
    using srt by simp
  then show "sorted_wrt (<) (map date (E @ drop 1 nv))"
    using assms(1) below 2 by (fastforce simp: sorted_wrt_append drop_map)
qed

lemma fresh_sorted:
  assumes "fetch_prices src n ts S td = (Inr f, n')" and "compute_net_values f w v = Inr nv"
  shows "sorted_wrt (<) (map date nv)" and "nv \<noteq> []"
  using fetch_prices_frame(1,3) [OF assms(1)] compute_net_values_dates [OF assms(2)] by auto

lemma main_legacy: "main cfg src s = (x, s') \<Longrightarrow> legacy_csv s' = legacy_csv s"
proof -
  assume m: "main cfg src s = (x, s')"
  from main_cases [OF m] show ?thesis
  proof (elim disjE exE conjE)
    assume "s' = s" then show ?thesis by simp
  next
    fix rb bp ex
    assume c: "case update_history rb bp (clock_today cfg) src ex s of
                   Return s1 \<Rightarrow> x = Done \<and> s' = s1
                 | Raise e s1 \<Rightarrow> x = Fatal e \<and> s' = s1
                 | Continue s1 \<Rightarrow>
                     refresh_live_weights rb bp (clock_today cfg) src s1 = (x, s')"
    show ?thesis
    proof (cases "update_history rb bp (clock_today cfg) src ex s")
      case (Return s1)
      then show ?thesis using c update_history_Return [OF Return] by simp
    next
      case (Raise e s1)
      then show ?thesis using c update_history_Raise [OF Raise] by simp
    next
      case (Continue s1)
      then have r: "refresh_live_weights rb bp (clock_today cfg) src s1 = (x, s')"
        using c by simp
      have "legacy_csv s1 = legacy_csv s"
        using update_history_Continue [OF Continue] by auto
      then show ?thesis using refresh_files [OF r] by simp
    qed
  qed
qed

lemma main_history:
  assumes "main cfg src s = (x, s')"
  shows "net_values_csv s' = net_values_csv s
     \<or> (\<exists>rb bp. load_rebalance_date cfg = Inr rb \<and> load_base_portfolio cfg = Inr bp
          \<and> ((\<exists>E f n nv. choose_existing s = Inr (Some E) \<and> E \<noteq> []
                  \<and> date (last E) < clock_today cfg
                  \<and> fetch_prices src (calls s) (map ticker bp) (max rb (date (last E)))
                        (clock_today cfg) = (Inr f, n)
                  \<and> compute_net_values f (map weight_frac bp) (net_value (last E)) = Inr nv
                  \<and> net_values_csv s' = Some (E @ drop 1 nv))
             \<or> (\<exists>ex f n nv. choose_existing s = Inr ex \<and> (ex = None \<or> ex = Some [])
                  \<and> rb < clock_today cfg
                  \<and> fetch_prices src (calls s) (map ticker bp) rb (clock_today cfg) = (Inr f, n)
                  \<and> compute_net_values f (map weight_frac bp) 1 = Inr nv
                  \<and> net_values_csv s' = Some nv)))"
proof -
  from main_cases [OF assms] show ?thesis
  proof (elim disjE exE conjE)
    assume "s' = s" then show ?thesis by simp
  next
    fix rb bp ex
    assume l: "load_rebalance_date cfg = Inr rb" "load_base_portfolio cfg = Inr bp"
      and ch: "choose_existing s = Inr ex"
      and c: "case update_history rb bp (clock_today cfg) src ex s of
                   Return s1 \<Rightarrow> x = Done \<and> s' = s1
                 | Raise e s1 \<Rightarrow> x = Fatal e \<and> s' = s1
                 | Continue s1 \<Rightarrow>
                     refresh_live_weights rb bp (clock_today cfg) src s1 = (x, s')"
    show ?thesis
    proof (cases "update_history rb bp (clock_today cfg) src ex s")
      case (Return s1)
      then show ?thesis using c update_history_Return [OF Return] by simp
    next
      case (Raise e s1)
      then show ?thesis using c update_history_Raise [OF Raise] by simp
    next
      case (Continue s1)
      then have r: "refresh_live_weights rb bp (clock_today cfg) src s1 = (x, s')"
        using c by simp
      have same: "net_values_csv s' = net_values_csv s1"
        using refresh_files [OF r] by simp
      from update_history_Continue [OF Continue] consider
        (existing) E f n nv where "ex = Some E" "E \<noteq> []" "date (last E) < clock_today cfg"
          "fetch_prices src (calls s) (map ticker bp) (max rb (date (last E))) (clock_today cfg)
             = (Inr f, n)"
          "compute_net_values f (map weight_frac bp) (net_value (last E)) = Inr nv"
          "s1 = s\<lparr>net_values_csv := Some (E @ drop 1 nv), calls := n\<rparr>"
      | (fresh) f n nv where "ex = None \<or> ex = Some []" "rb < clock_today cfg"
          "fetch_prices src (calls s) (map ticker bp) rb (clock_today cfg) = (Inr f, n)"
          "compute_net_values f (map weight_frac bp) 1 = Inr nv"
          "s1 = s\<lparr>net_values_csv := Some nv, calls := n\<rparr>"
        by blast
      then show ?thesis
      proof cases
        case existing
        then have "\<exists>E f n nv. choose_existing s = Inr (Some E) \<and> E \<noteq> []
                  \<and> date (last E) < clock_today cfg
                  \<and> fetch_prices src (calls s) (map ticker bp) (max rb (date (last E)))
                        (clock_today cfg) = (Inr f, n)
                  \<and> compute_net_values f (map weight_frac bp) (net_value (last E)) = Inr nv
                  \<and> net_values_csv s' = Some (E @ drop 1 nv)"
          using ch same by auto
        then show ?thesis using l by blast
      next
        case fresh
        then have "\<exists>ex f n nv. choose_existing s = Inr ex \<and> (ex = None \<or> ex = Some [])
                  \<and> rb < clock_today cfg
                  \<and> fetch_prices src (calls s) (map ticker bp) rb (clock_today cfg) = (Inr f, n)
                  \<and> compute_net_values f (map weight_frac bp) 1 = Inr nv
                  \<and> net_values_csv s' = Some nv"
          using ch same by auto
        then show ?thesis using l by blast
      qed
    qed
  qed
qed

section \<open>Properties of a run\<close>

text \<open>
  C6. After any run the history file is either what it was, or a series whose dates are
  strictly ascending (so without duplicate dates) and that begins with the rows of the
  existing series as loaded, unchanged: no appended row carries a date of the existing
  series.
\<close>

theorem merged_history_strictly_ascending:
  assumes "main cfg src s = (x, s')"
  shows "net_values_csv s' = net_values_csv s
     \<or> (\<exists>merged. net_values_csv s' = Some merged
           \<and> sorted_wrt (<) (map date merged)
           \<and> distinct (map date merged)
           \<and> (\<forall>E. choose_existing s = Inr (Some E) \<longrightarrow>
                  take (length E) merged = E
                  \<and> (\<forall>r\<in>set (drop (length E) merged). date r \<notin> date ` set E)))"
proof -
  have goal: "\<exists>merged. net_values_csv s' = Some merged
           \<and> sorted_wrt (<) (map date merged)
           \<and> distinct (map date merged)
           \<and> (\<forall>E. choose_existing s = Inr (Some E) \<longrightarrow>
                  take (length E) merged = E
                  \<and> (\<forall>r\<in>set (drop (length E) merged). date r \<notin> date ` set E))"
    if w: "net_values_csv s' = Some merged" and ch: "choose_existing s = Inr ex"
      and srt: "sorted_wrt (<) (map date merged)"
      and pre: "\<And>E. ex = Some E \<Longrightarrow> take (length E) merged = E"
    for merged ex
  proof -
    have d: "distinct (map date merged)"
      using srt by (simp add: strict_sorted_iff)
    have "date r \<notin> date ` set E"
      if E: "choose_existing s = Inr (Some E)" and r: "r \<in> set (drop (length E) merged)" for E r
    proof -
      have "take (length E) merged = E" using pre E ch by simp
      then have "merged = E @ drop (length E) merged"
        by (metis append_take_drop_id)
      then have "distinct (map date E @ map date (drop (length E) merged))"
        using d by (metis map_append)
      then show ?thesis using r by auto
    qed
    then show ?thesis
      using w srt d pre ch by auto
  qed
  from main_history [OF assms] consider
    (same) "net_values_csv s' = net_values_csv s"
  | (existing) rb and bp :: "bp_row list" and E f n nv
      where "choose_existing s = Inr (Some E)" "E \<noteq> []"
      "fetch_prices src (calls s) (map ticker bp) (max rb (date (last E))) (clock_today cfg)
         = (Inr f, n)"
      "compute_net_values f (map weight_frac bp) (net_value (last E)) = Inr nv"
      "net_values_csv s' = Some (E @ drop 1 nv)"
  | (fresh) rb and bp :: "bp_row list" and ex f n nv
      where "choose_existing s = Inr ex" "ex = None \<or> ex = Some []"
      "fetch_prices src (calls s) (map ticker bp) rb (clock_today cfg) = (Inr f, n)"
      "compute_net_values f (map weight_frac bp) 1 = Inr nv"
      "net_values_csv s' = Some nv"
    by blast
  then show ?thesis
  proof cases
    case same
    then show ?thesis by simp
  next
    case existing
    have "sorted_wrt (<) (map date E)"
      using choose_existing_sorted [OF existing(1)] .
    from merged_sorted(1) [OF this existing(2,3) _ existing(4)]
    have "sorted_wrt (<) (map date (E @ drop 1 nv))" by simp
    from goal [OF existing(5,1) this] show ?thesis by simp
  next
    case fresh
    have "sorted_wrt (<) (map date nv)"
      using fresh_sorted(1) [OF fresh(3,4)] .
    from goal [OF fresh(5,1) this] fresh(2) show ?thesis by auto
  qed
qed


text \<open>The rebalanced run after a fetch over an up-to-date history.\<close>

theorem merged_history_strictly_ascending_witness:
  "net_values_csv (snd (main rebalanced_cfg later_source up_to_date_state))
     \<noteq> net_values_csv up_to_date_state
   \<and> choose_existing up_to_date_state = Inr (Some example_history)
   \<and> (\<exists>merged. net_values_csv (snd (main rebalanced_cfg later_source up_to_date_state))
           = Some merged
         \<and> sorted_wrt (<) (map date merged)
         \<and> distinct (map date merged)
         \<and> take (length example_history) merged = example_history
         \<and> (\<forall>r\<in>set (drop (length example_history) merged).
               date r \<notin> date ` set example_history))"
proof -
  have m: "main rebalanced_cfg later_source up_to_date_state
      = (fst (main rebalanced_cfg later_source up_to_date_state),
         snd (main rebalanced_cfg later_source up_to_date_state))"
    by simp
  have ne: "net_values_csv (snd (main rebalanced_cfg later_source up_to_date_state))
     \<noteq> net_values_csv up_to_date_state"
    by (simp add: main_rebalanced_history up_to_date_fields)
  show ?thesis
    using merged_history_strictly_ascending [OF m] ne choose_up_to_date by blast
qed


lemma load_legacy_history: "load_net_values legacy_history = legacy_history"
  by (rule load_net_values_id) (simp add: legacy_history_def example_history_def)

lemma last_legacy_history:
  "legacy_history \<noteq> []" "date (last legacy_history) = 738888"
  "net_value (last legacy_history) = 1.05"
  by (simp_all add: legacy_history_def example_history_def)

lemma two_histories_fields:
  "calls two_histories_state = 0" "net_values_csv two_histories_state = Some example_history"
  "legacy_csv two_histories_state = Some legacy_history"
  by (simp_all add: two_histories_state_def)

lemma date_min_histories:
  "date_min example_history = Some 738886" "date_min legacy_history = Some 738883"
  by (simp_all add: date_min_def legacy_history_def example_history_def)

lemma choose_two_histories: "choose_existing two_histories_state = Inr (Some legacy_history)"
  by (simp add: choose_existing_def existing_candidates_def two_histories_fields
      load_example_history load_legacy_history date_min_histories)

lemma main_two_histories:
  "net_values_csv (snd (main rebalanced_cfg later_source two_histories_state)) =
       Some (legacy_history @
         [\<lparr>date = 738896, net_value = 1.113, pct_change = 0.06\<rparr>,
          \<lparr>date = 738897, net_value = 1.218, pct_change = 1.218 / 1.113 - 1\<rparr>])"
proof -
  have "update_history 738895 example_portfolio 738897 later_source (Some legacy_history)
          two_histories_state
      = Continue (two_histories_state\<lparr>net_values_csv := Some (legacy_history @
         [\<lparr>date = 738896, net_value = 1.113, pct_change = 0.06\<rparr>,
          \<lparr>date = 738897, net_value = 1.218, pct_change = 1.218 / 1.113 - 1\<rparr>]), calls := 2\<rparr>)"
    by (simp add: update_history_def last_legacy_history example_portfolio_columns
        fetch_prices_later compute_later_frame two_histories_fields)
  then show ?thesis
    by (simp add: main_def load_rebalanced_cfg choose_two_histories refresh_keeps_history)
qed

section \<open>Idempotence of the history update\<close>

lemma fetch_series_stateless:
  "fst (fetch_series (\<lambda>k. w) S E ts n sm) = fst (fetch_series (\<lambda>k. w) S E ts m sm)"
  by (induction ts arbitrary: n m sm) (auto split: sum.splits)

lemma fetch_prices_stateless:
  "fst (fetch_prices (\<lambda>k. w) n ts S E) = fst (fetch_prices (\<lambda>k. w) m ts S E)"
  using fetch_series_stateless [of w S E ts n "[]" m]
  by (auto simp: fetch_prices_def split: prod.splits sum.splits)

lemma update_history_stateless:
  assumes "net_values_csv s = net_values_csv t"
  shows "same_history (update_history rb bp td (\<lambda>k. w) ex s)
           (update_history rb bp td (\<lambda>k. w) ex t)"
proof (cases "ex = None \<or> ex = Some []")
  case True
  obtain r n where a: "fetch_prices (\<lambda>k. w) (calls s) (map ticker bp) rb td = (r, n)"
    by (cases "fetch_prices (\<lambda>k. w) (calls s) (map ticker bp) rb td")
  obtain r' n' where b: "fetch_prices (\<lambda>k. w) (calls t) (map ticker bp) rb td = (r', n')"
    by (cases "fetch_prices (\<lambda>k. w) (calls t) (map ticker bp) rb td")
  have "r = r'"
    using fetch_prices_stateless [of w "calls s" "map ticker bp" rb td "calls t"] a b by simp
  then show ?thesis
    using assms a b
    by (simp add: update_history_fresh [OF True] split: sum.splits)
next
  case False
  then obtain E where E: "ex = Some E" "E \<noteq> []" by auto
  obtain r n where a: "fetch_prices (\<lambda>k. w) (calls s) (map ticker bp)
      (max rb (date (last E))) td = (r, n)"
    by (cases "fetch_prices (\<lambda>k. w) (calls s) (map ticker bp) (max rb (date (last E))) td")
  obtain r' n' where b: "fetch_prices (\<lambda>k. w) (calls t) (map ticker bp)
      (max rb (date (last E))) td = (r', n')"
    by (cases "fetch_prices (\<lambda>k. w) (calls t) (map ticker bp) (max rb (date (last E))) td")
  have "r = r'"
    using fetch_prices_stateless [of w "calls s" "map ticker bp" "max rb (date (last E))" td
        "calls t"] a b by simp
  then show ?thesis
    using assms a b E
    by (simp add: update_history_existing [OF E(2)] split: sum.splits)
qed

lemma choose_existing_cong:
  "net_values_csv s = net_values_csv t \<Longrightarrow> legacy_csv s = legacy_csv t \<Longrightarrow>
   choose_existing s = choose_existing t"
  by (simp add: choose_existing_def existing_candidates_def)

lemma main_stateless:
  assumes "net_values_csv s = net_values_csv t" and "legacy_csv s = legacy_csv t"
  shows "net_values_csv (snd (main cfg (\<lambda>k. w) s)) = net_values_csv (snd (main cfg (\<lambda>k. w) t))"
proof -
  have ch: "choose_existing s = choose_existing t"
    using assms by (rule choose_existing_cong)
  have step: "net_values_csv (snd (case update_history rb bp td (\<lambda>k. w) ex s of
        Return s' \<Rightarrow> (Done, s') | Raise e s' \<Rightarrow> (Fatal e, s')
      | Continue s' \<Rightarrow> refresh_live_weights rb bp td (\<lambda>k. w) s'))
    = net_values_csv (snd (case update_history rb bp td (\<lambda>k. w) ex t of
        Return s' \<Rightarrow> (Done, s') | Raise e s' \<Rightarrow> (Fatal e, s')
      | Continue s' \<Rightarrow> refresh_live_weights rb bp td (\<lambda>k. w) s'))" for rb bp td ex
    using update_history_stateless [OF assms(1), of rb bp td w ex]
    by (cases "update_history rb bp td (\<lambda>k. w) ex s";
        cases "update_history rb bp td (\<lambda>k. w) ex t")
      (simp_all add: refresh_keeps_history)
  show ?thesis
    using assms(1) ch step by (simp add: main_def split: sum.splits)
qed

lemma choose_existing_eq:
  "choose_existing s =
     (case (net_values_csv s, legacy_csv s) of
        (None, None) \<Rightarrow> Inr None
      | (Some a, None) \<Rightarrow> Inr (Some (load_net_values a))
      | (None, Some b) \<Rightarrow> Inr (Some (load_net_values b))
      | (Some a, Some b) \<Rightarrow>
          (case (date_min (load_net_values b), date_min (load_net_values a)) of
             (Some x, Some y) \<Rightarrow>
               Inr (Some (if x < y then load_net_values b else load_net_values a))
           | (None, None) \<Rightarrow> Inr (Some (load_net_values a))
           | _ \<Rightarrow> Inl TypeError))"
  by (auto simp: choose_existing_def existing_candidates_def split: option.splits)

lemma choose_after_write:
  assumes ch: "choose_existing s = Inr ex"
    and w: "net_values_csv s1 = Some M" and l: "legacy_csv s1 = legacy_csv s"
    and srt: "sorted_wrt (<) (map date M)" and ne: "M \<noteq> []"
    and hd: "\<And>E. ex = Some E \<Longrightarrow> E \<noteq> [] \<Longrightarrow> date (hd M) = date (hd E)"
  shows "choose_existing s1 = Inr (Some M) \<or> choose_existing s1 = Inl TypeError"
proof (cases "legacy_csv s")
  case None
  then show ?thesis
    using w l by (simp add: choose_existing_eq load_net_values_id [OF srt])
next
  case (Some b)
  define lb where "lb = load_net_values b"
  have lbs: "sorted_wrt (<) (map date lb)"
    by (simp add: lb_def load_net_values_sorted)
  have dM: "date_min M = Some (date (hd M))"
    using date_min_sorted [OF srt ne] .
  have c1: "choose_existing s1 =
      (case (date_min lb, date_min M) of
         (Some x, Some y) \<Rightarrow> Inr (Some (if x < y then lb else M))
       | (None, None) \<Rightarrow> Inr (Some M)
       | _ \<Rightarrow> Inl TypeError)"
    using w l Some
    by (simp add: choose_existing_eq load_net_values_id [OF srt] lb_def split: option.splits)
  show ?thesis
  proof (cases "lb = []")
    case True
    then have "date_min lb = None" by (simp add: date_min_None)
    then show ?thesis using c1 dM by simp
  next
    case False
    then have dlb: "date_min lb = Some (date (hd lb))"
      using date_min_sorted [OF lbs] by simp
    have "\<not> date (hd lb) < date (hd M)"
    proof (cases "net_values_csv s")
      case None
      then have "ex = Some lb"
        using ch Some by (simp add: choose_existing_eq lb_def)
      then show ?thesis using hd False by simp
    next
      case a: (Some a)
      define la where "la = load_net_values a"
      have las: "sorted_wrt (<) (map date la)"
        by (simp add: la_def load_net_values_sorted)
      have c0: "choose_existing s =
          (case (date_min lb, date_min la) of
             (Some x, Some y) \<Rightarrow> Inr (Some (if x < y then lb else la))
           | (None, None) \<Rightarrow> Inr (Some la)
           | _ \<Rightarrow> Inl TypeError)"
        using a Some by (simp add: choose_existing_eq lb_def la_def split: option.splits)
      have lane: "la \<noteq> []"
        using c0 ch dlb by (auto simp: date_min_None [symmetric] split: option.splits)
      then have dla: "date_min la = Some (date (hd la))"
        using date_min_sorted [OF las] by simp
      have "ex = Some (if date (hd lb) < date (hd la) then lb else la)"
        using c0 ch dlb dla by simp
      then show ?thesis
        using hd [of "if date (hd lb) < date (hd la) then lb else la"] False lane
        by (auto split: if_splits)
    qed
    then show ?thesis using c1 dM dlb by simp
  qed
qed

lemma at_most_one_row:
  assumes "distinct xs" and "set xs \<subseteq> {a}"
  shows "length xs \<le> 1"
proof (cases xs)
  case Nil
  then show ?thesis by simp
next
  case (Cons x ys)
  have "ys = []"
  proof (rule ccontr)
    assume "ys \<noteq> []"
    then obtain y where "y \<in> set ys" by (cases ys) auto
    then have "y = a" "x = a" "x \<noteq> y"
      using assms Cons by auto
    then show False by simp
  qed
  then show ?thesis using Cons by simp
qed

lemma refetch_single_row:
  assumes f: "fetch_prices (\<lambda>k. w) n ts S td = (Inr f, n1)"
    and f': "fetch_prices (\<lambda>k. w) m ts S' td = (Inr f', m1)"
    and S: "S \<le> S'"
    and one: "\<And>d. d \<in> set (map fst (rows f)) \<Longrightarrow> S' \<le> d \<Longrightarrow> d = a"
    and c: "compute_net_values f' ws v = Inr nv'"
  shows "drop 1 nv' = []"
proof -
  have "set (map fst (rows f')) \<subseteq> {a}"
  proof
    fix d assume "d \<in> set (map fst (rows f'))"
    then have "d \<in> set (map fst (rows f))" "S' \<le> d"
      using fetch_prices_narrow [OF f f' S] by auto
    then show "d \<in> {a}"
      using one by simp
  qed
  moreover have "distinct (map fst (rows f'))"
    using fetch_prices_frame(3) [OF f'] by (simp add: strict_sorted_iff)
  ultimately have "length (map fst (rows f')) \<le> 1"
    by (rule at_most_one_row [rotated])
  then have "length nv' \<le> 1"
    using compute_net_values_dates [OF c] by (metis length_map)
  then show ?thesis by simp
qed

lemma second_run_keeps:
  assumes loads: "load_rebalance_date cfg = Inr rb" "load_base_portfolio cfg = Inr bp"
    and ch: "choose_existing s = Inr ex"
    and f: "fetch_prices (\<lambda>k. w) n0 (map ticker bp) S (clock_today cfg) = (Inr f, n)"
    and w: "net_values_csv s1 = Some M" and l: "legacy_csv s1 = legacy_csv s"
    and srt: "sorted_wrt (<) (map date M)" and ne: "M \<noteq> []"
    and hd: "\<And>E. ex = Some E \<Longrightarrow> E \<noteq> [] \<Longrightarrow> date (hd M) = date (hd E)"
    and S: "S \<le> max rb (date (last M))"
    and one: "\<And>d. d \<in> set (map fst (rows f)) \<Longrightarrow> max rb (date (last M)) \<le> d \<Longrightarrow> d = a"
  shows "net_values_csv (snd (main cfg (\<lambda>k. w) s1)) = Some M"
proof -
  have m2: "main cfg (\<lambda>k. w) s1 = (fst (main cfg (\<lambda>k. w) s1), snd (main cfg (\<lambda>k. w) s1))"
    by simp
  have c2: "choose_existing s1 = Inr (Some M) \<or> choose_existing s1 = Inl TypeError"
    using choose_after_write [OF ch w l srt ne hd] by blast
  from main_history [OF m2] consider
    (same) "net_values_csv (snd (main cfg (\<lambda>k. w) s1)) = net_values_csv s1"
  | (existing) rb' and bp' :: "bp_row list" and E f' n' nv'
    where "load_rebalance_date cfg = Inr rb'" "load_base_portfolio cfg = Inr bp'"
      "choose_existing s1 = Inr (Some E)" "E \<noteq> []"
      "fetch_prices (\<lambda>k. w) (calls s1) (map ticker bp') (max rb' (date (last E)))
         (clock_today cfg) = (Inr f', n')"
      "compute_net_values f' (map weight_frac bp') (net_value (last E)) = Inr nv'"
      "net_values_csv (snd (main cfg (\<lambda>k. w) s1)) = Some (E @ drop 1 nv')"
  | (fresh) ex' where "choose_existing s1 = Inr ex'" "ex' = None \<or> ex' = Some []"
    by blast
  then show ?thesis
  proof cases
    case same
    then show ?thesis using w by simp
  next
    case existing
    have eq: "rb' = rb" "bp' = bp" "E = M"
      using existing(1,2,3) loads c2 by auto
    have "drop 1 nv' = []"
      using refetch_single_row [OF f existing(5) [unfolded eq] S one existing(6) [unfolded eq]]
      by simp
    then show ?thesis using existing(7) eq by simp
  next
    case fresh
    then show ?thesis using c2 ne by auto
  qed
qed

lemma main_up_to_date:
  "choose_existing s = Inr (Some E) \<Longrightarrow> E \<noteq> [] \<Longrightarrow> clock_today cfg \<le> date (last E) \<Longrightarrow>
   snd (main cfg src s) = s"
  by (simp add: main_def update_history_existing split: sum.splits)

lemma frame_top:
  assumes f: "fetch_prices src n ts S td = (Inr f, n1)"
    and c: "compute_net_values f ws v = Inr nv"
    and more: "drop k nv \<noteq> []"
    and M: "last M = last nv"
  shows "S \<le> max rb (date (last M))"
    and "\<And>d. d \<in> set (map fst (rows f)) \<Longrightarrow> max rb (date (last M)) \<le> d
           \<Longrightarrow> d = date (last nv)"
proof -
  have ds: "map date nv = map fst (rows f)"
    using compute_net_values_dates [OF c] .
  have ne: "nv \<noteq> []" using more by auto
  have srt: "sorted (map date nv)"
    using fetch_prices_frame(3) [OF f] ds by (simp add: strict_sorted_iff)
  have top: "date (last nv) = last (map date nv)"
    using ne by (simp add: last_map)
  have "last (map date nv) \<in> set (map fst (rows f))"
    using ne ds by (metis last_in_set map_is_Nil_conv)
  then have "S \<le> last (map date nv)"
    using fetch_prices_frame(4) [OF f] by blast
  then have "S \<le> date (last nv)"
    using top by simp
  then show "S \<le> max rb (date (last M))"
    using M by simp
  fix d assume d: "d \<in> set (map fst (rows f))" "max rb (date (last M)) \<le> d"
  then have "d \<le> date (last nv)"
    using sorted_below_last [OF srt, of d] ds top by simp
  then show "d = date (last nv)"
    using d(2) M by simp
qed

text \<open>
  C5. The history update is idempotent. First, whatever the provider answers: when the
  chosen existing series has a last date on or after today, the run changes nothing at
  all. Second, for a provider whose answers do not change between requests: running the
  pipeline again on the state the first run left, with the same configuration and the
  same today, leaves the history file exactly as the first run left it; the second run
  appends no row.
\<close>

theorem history_update_idempotent:
  "(choose_existing s = Inr (Some E) \<and> E \<noteq> [] \<and> clock_today cfg \<le> date (last E) \<longrightarrow>
      snd (main cfg src s) = s)
   \<and> net_values_csv (snd (main cfg (\<lambda>k. w) (snd (main cfg (\<lambda>k. w) s))))
       = net_values_csv (snd (main cfg (\<lambda>k. w) s))"
proof (intro conjI impI)
  assume "choose_existing s = Inr (Some E) \<and> E \<noteq> [] \<and> clock_today cfg \<le> date (last E)"
  then show "snd (main cfg src s) = s"
    using main_up_to_date by blast
next
  define s1 where "s1 = snd (main cfg (\<lambda>k. w) s)"
  have m1: "main cfg (\<lambda>k. w) s = (fst (main cfg (\<lambda>k. w) s), s1)"
    by (simp add: s1_def)
  have leg: "legacy_csv s1 = legacy_csv s"
    using main_legacy [OF m1] .
  have "net_values_csv (snd (main cfg (\<lambda>k. w) s1)) = net_values_csv s1"
  proof (cases "net_values_csv s1 = net_values_csv s")
    case True
    from main_stateless [OF True leg, of cfg w] show ?thesis
      by (simp add: s1_def)
  next
    case False
    with main_history [OF m1] consider
      (existing) rb and bp :: "bp_row list" and E f n nv
      where "load_rebalance_date cfg = Inr rb" "load_base_portfolio cfg = Inr bp"
        "choose_existing s = Inr (Some E)" "E \<noteq> []"
        "fetch_prices (\<lambda>k. w) (calls s) (map ticker bp) (max rb (date (last E)))
           (clock_today cfg) = (Inr f, n)"
        "compute_net_values f (map weight_frac bp) (net_value (last E)) = Inr nv"
        "net_values_csv s1 = Some (E @ drop 1 nv)"
    | (fresh) rb and bp :: "bp_row list" and ex f n nv
      where "load_rebalance_date cfg = Inr rb" "load_base_portfolio cfg = Inr bp"
        "choose_existing s = Inr ex" "ex = None \<or> ex = Some []"
        "fetch_prices (\<lambda>k. w) (calls s) (map ticker bp) rb (clock_today cfg) = (Inr f, n)"
        "compute_net_values f (map weight_frac bp) 1 = Inr nv"
        "net_values_csv s1 = Some nv"
      by blast
    then show ?thesis
    proof cases
      case existing
      have srtE: "sorted_wrt (<) (map date E)"
        using choose_existing_sorted [OF existing(3)] .
      have srt: "sorted_wrt (<) (map date (E @ drop 1 nv))"
        using merged_sorted(1) [OF srtE existing(4,5) _ existing(6)] by simp
      have ne: "E @ drop 1 nv \<noteq> []"
        using existing(4) by simp
      have hd: "date (hd (E @ drop 1 nv)) = date (hd E')" if "Some E = Some E'" "E' \<noteq> []" for E'
        using that by simp
      have ds: "map date nv = map fst (rows f)"
        using compute_net_values_dates [OF existing(6)] .
      show ?thesis
      proof (cases "drop 1 nv = []")
        case True
        have one: "d = hd (map fst (rows f))" if "d \<in> set (map fst (rows f))" for d
        proof -
          have "length (map fst (rows f)) \<le> 1"
            using True ds by (metis drop_eq_Nil length_map)
          then show ?thesis
            using that by (cases "map fst (rows f)") auto
        qed
        have S: "max rb (date (last E)) \<le> max rb (date (last (E @ drop 1 nv)))"
          by (simp only: True append_Nil2 order_refl)
        have "net_values_csv (snd (main cfg (\<lambda>k. w) s1)) = Some (E @ drop 1 nv)"
          by (rule second_run_keeps [OF existing(1,2,3,5,7) leg srt ne hd S one])
        then show ?thesis using existing(7) by simp
      next
        case False
        have l: "last (E @ drop 1 nv) = last nv"
          using False by simp
        note top = frame_top [OF existing(5,6) False l, where rb = rb]
        have "net_values_csv (snd (main cfg (\<lambda>k. w) s1)) = Some (E @ drop 1 nv)"
          by (rule second_run_keeps [OF existing(1,2,3,5,7) leg srt ne hd top])
        then show ?thesis using existing(7) by simp
      qed
    next
      case fresh
      have srt: "sorted_wrt (<) (map date nv)" and ne: "nv \<noteq> []"
        using fresh_sorted [OF fresh(5,6)] by simp_all
      have more: "drop 0 nv \<noteq> []" using ne by simp
      note top = frame_top [OF fresh(5,6) more refl, where rb = rb]
      have "net_values_csv (snd (main cfg (\<lambda>k. w) s1)) = Some nv"
        by (rule second_run_keeps [OF fresh(1,2,3,5,7) leg srt ne,
              where a = "date (last nv)"])
          (use top fresh(4) in auto)
      then show ?thesis using fresh(7) by simp
    qed
  qed
  then show "net_values_csv (snd (main cfg (\<lambda>k. w) (snd (main cfg (\<lambda>k. w) s))))
       = net_values_csv (snd (main cfg (\<lambda>k. w) s))"
    by (simp add: s1_def)
qed

lemma example_source_stateless: "(\<lambda>k. example_source 0) = example_source"
  by (rule ext, rule ext) (simp add: example_source_def)

lemma main_fresh_history:
  "net_values_csv (snd (main example_cfg example_source fresh_state)) =
     Some [\<lparr>date = 738886, net_value = 1, pct_change = 0\<rparr>,
           \<lparr>date = 738887, net_value = 1.02, pct_change = 0.02\<rparr>,
           \<lparr>date = 738888, net_value = 1.05, pct_change = 1.05 / 1.02 - 1\<rparr>]"
proof -
  have "update_history 738886 example_portfolio 738888 example_source None fresh_state
      = Continue (fresh_state\<lparr>net_values_csv := Some
          [\<lparr>date = 738886, net_value = 1, pct_change = 0\<rparr>,
           \<lparr>date = 738887, net_value = 1.02, pct_change = 0.02\<rparr>,
           \<lparr>date = 738888, net_value = 1.05, pct_change = 1.05 / 1.02 - 1\<rparr>], calls := 2\<rparr>)"
    using fetch_prices_example [of 0]
    by (simp add: update_history_def example_portfolio_columns compute_example_frame
        calls_fresh)
  then show ?thesis
    by (simp add: main_def load_example_cfg choose_fresh refresh_keeps_history)
qed

text \<open>
  The theorem at the run on an up-to-date history, and at two runs in a row from the
  state without history: the second run keeps the three rows the first one wrote.
\<close>

theorem history_update_idempotent_witness:
  "choose_existing up_to_date_state = Inr (Some example_history)
   \<and> example_history \<noteq> []
   \<and> clock_today example_cfg \<le> date (last example_history)
   \<and> snd (main example_cfg example_source up_to_date_state) = up_to_date_state
   \<and> net_values_csv (snd (main example_cfg example_source fresh_state))
       \<noteq> net_values_csv fresh_state
   \<and> net_values_csv (snd (main example_cfg example_source
         (snd (main example_cfg example_source fresh_state))))
       = net_values_csv (snd (main example_cfg example_source fresh_state))"
proof -
  have h: "choose_existing up_to_date_state = Inr (Some example_history)"
    "example_history \<noteq> []" "clock_today example_cfg \<le> date (last example_history)"
    by (simp_all add: choose_up_to_date last_example_history load_example_cfg)
  have 1: "snd (main example_cfg example_source up_to_date_state) = up_to_date_state"
    using history_update_idempotent [of up_to_date_state example_history example_cfg
        example_source "example_source 0"] h by blast
  have 2: "net_values_csv (snd (main example_cfg example_source
         (snd (main example_cfg example_source fresh_state))))
       = net_values_csv (snd (main example_cfg example_source fresh_state))"
    using history_update_idempotent [of fresh_state example_history example_cfg
        example_source "example_source 0"]
    by (simp add: example_source_stateless)
  have 3: "net_values_csv (snd (main example_cfg example_source fresh_state))
       \<noteq> net_values_csv fresh_state"
    by (simp add: main_fresh_history calls_fresh)
  show ?thesis
    using h 1 2 3 by blast
qed

section \<open>The resume anchor\<close>

text \<open>
  What does hold of the resume anchor: the first row of a fetched frame is the row of the
  window's start date whenever that date is a trading day common to all tickers, and the
  segment computed from the frame takes the start value there. With a window that starts
  at the last date of the history, the dropped row is then the duplicate of that date.
\<close>

lemma first_row_is_window_start:
  assumes "fetch_prices src n ts S td = (Inr f, n')" and "S \<in> set (map fst (rows f))"
  shows "fst (hd (rows f)) = S"
proof -
  have ne: "rows f \<noteq> []" and srt: "sorted (map fst (rows f))"
    and win: "\<forall>d\<in>set (map fst (rows f)). S \<le> d"
    using fetch_prices_frame(1,3,4) [OF assms(1)] by (auto simp: strict_sorted_iff)
  obtain r rs where r: "rows f = r # rs"
    using ne by (cases "rows f") auto
  have "fst r \<le> S"
    using srt assms(2) by (auto simp: r)
  moreover have "S \<le> fst r"
    using win by (simp add: r)
  ultimately show ?thesis by (simp add: r)
qed

section \<open>The base of the merge\<close>

text \<open>
  C9. When the public and the legacy history both exist with at least one row, the base
  is one of them, loaded: the legacy one when its earliest date is strictly earlier, else
  the public one. The resume logic runs on this base alone. When today is not after the
  last date of the base the run changes nothing. Otherwise the history file is either
  left as it was, or it is the base followed by the segment that \<open>compute_net_values\<close>
  gives for the prices fetched over the window from the later of the rebalance date and
  the last date of the base up to today, started at the last net value of the base, less
  its first row; and it is the latter whenever the inputs load and that fetch returns a
  frame. No row of the other candidate enters the result.
\<close>

theorem earliest_candidate_is_base:
  assumes "net_values_csv s = Some a" and "legacy_csv s = Some b" and "a \<noteq> []" and "b \<noteq> []"
    and "chosen = (if Min (date ` set b) < Min (date ` set a)
                   then load_net_values b else load_net_values a)"
    and "main cfg src s = (x, s')"
  shows "choose_existing s = Inr (Some chosen)
     \<and> (clock_today cfg \<le> date (last chosen) \<longrightarrow> s' = s)
     \<and> (net_values_csv s' = Some a
          \<or> (\<exists>rb bp f n nv. load_rebalance_date cfg = Inr rb
                \<and> load_base_portfolio cfg = Inr bp
                \<and> date (last chosen) < clock_today cfg
                \<and> fetch_prices src (calls s) (map ticker bp) (max rb (date (last chosen)))
                      (clock_today cfg) = (Inr f, n)
                \<and> compute_net_values f (map weight_frac bp) (net_value (last chosen)) = Inr nv
                \<and> net_values_csv s' = Some (chosen @ drop 1 nv)
                \<and> (\<forall>r\<in>set (drop 1 nv). date (last chosen) < date r)))
     \<and> (\<forall>k rb bp f n. load_api_key cfg = Inr k \<and> load_rebalance_date cfg = Inr rb
            \<and> load_base_portfolio cfg = Inr bp
            \<and> date (last chosen) < clock_today cfg
            \<and> fetch_prices src (calls s) (map ticker bp) (max rb (date (last chosen)))
                  (clock_today cfg) = (Inr f, n)
          \<longrightarrow> (\<exists>nv. compute_net_values f (map weight_frac bp) (net_value (last chosen)) = Inr nv
                 \<and> net_values_csv s' = Some (chosen @ drop 1 nv)))"
proof -
  have ne: "load_net_values a \<noteq> []" "load_net_values b \<noteq> []"
    using assms(3,4) by (simp_all add: load_net_values_Nil)
  have dm: "date_min (load_net_values a) = Some (Min (date ` set a))"
    "date_min (load_net_values b) = Some (Min (date ` set b))"
    using ne by (simp_all add: date_min_Min load_net_values_dates)
  have ch: "choose_existing s = Inr (Some chosen)"
    using assms(1,2,5) dm by (simp add: choose_existing_def existing_candidates_def)
  have cne: "chosen \<noteq> []"
    using ne assms(5) by simp
  have s': "s' = snd (main cfg src s)"
    using assms(6) by simp
  have up: "s' = s" if "clock_today cfg \<le> date (last chosen)"
    using main_up_to_date [OF ch cne that, of src] s' by simp
  have written: "net_values_csv s' = Some a
          \<or> (\<exists>rb bp f n nv. load_rebalance_date cfg = Inr rb
                \<and> load_base_portfolio cfg = Inr bp
                \<and> date (last chosen) < clock_today cfg
                \<and> fetch_prices src (calls s) (map ticker bp) (max rb (date (last chosen)))
                      (clock_today cfg) = (Inr f, n)
                \<and> compute_net_values f (map weight_frac bp) (net_value (last chosen)) = Inr nv
                \<and> net_values_csv s' = Some (chosen @ drop 1 nv)
                \<and> (\<forall>r\<in>set (drop 1 nv). date (last chosen) < date r))"
  proof -
    from main_history [OF assms(6)] consider
      (same) "net_values_csv s' = net_values_csv s"
    | (existing) rb and bp :: "bp_row list" and E f n nv
      where "load_rebalance_date cfg = Inr rb" "load_base_portfolio cfg = Inr bp"
        "choose_existing s = Inr (Some E)" "E \<noteq> []" "date (last E) < clock_today cfg"
        "fetch_prices src (calls s) (map ticker bp) (max rb (date (last E))) (clock_today cfg)
           = (Inr f, n)"
        "compute_net_values f (map weight_frac bp) (net_value (last E)) = Inr nv"
        "net_values_csv s' = Some (E @ drop 1 nv)"
    | (fresh) ex where "choose_existing s = Inr ex" "ex = None \<or> ex = Some []"
      by blast
    then show ?thesis
    proof cases
      case same
      then show ?thesis using assms(1) by simp
    next
      case existing
      have E: "E = chosen" using existing(3) ch by simp
      have "sorted_wrt (<) (map date E)"
        using choose_existing_sorted [OF existing(3)] .
      from merged_sorted(2) [OF this existing(4,6) _ existing(7)]
      have "\<forall>r\<in>set (drop 1 nv). date (last E) < date r" by simp
      then show ?thesis
        using existing(1,2,5,6,7,8) unfolding E by blast
    next
      case fresh
      then show ?thesis using ch cne by auto
    qed
  qed
  have forced: "\<exists>nv. compute_net_values f (map weight_frac bp) (net_value (last chosen)) = Inr nv
                 \<and> net_values_csv s' = Some (chosen @ drop 1 nv)"
    if l: "load_api_key cfg = Inr k" "load_rebalance_date cfg = Inr rb"
      "load_base_portfolio cfg = Inr bp"
      and td: "date (last chosen) < clock_today cfg"
      and fp: "fetch_prices src (calls s) (map ticker bp) (max rb (date (last chosen)))
                  (clock_today cfg) = (Inr f, n)"
    for k rb bp f n
  proof -
    have "rows f \<noteq> []"
      using fetch_prices_frame(1) [OF fp] .
    then obtain nv where
      nv: "compute_net_values f (map weight_frac bp) (net_value (last chosen)) = Inr nv"
      using compute_net_values_Inr by blast
    have "update_history rb bp (clock_today cfg) src (Some chosen) s
        = Continue (s\<lparr>net_values_csv := Some (chosen @ drop 1 nv), calls := n\<rparr>)"
      using td fp nv by (simp add: update_history_existing [OF cne])
    then have "net_values_csv (snd (main cfg src s)) = Some (chosen @ drop 1 nv)"
      using l ch by (simp add: main_def refresh_keeps_history)
    then show ?thesis
      using nv s' by simp
  qed
  show ?thesis
    using ch up written forced by blast
qed


text \<open>
  The theorem with both histories present, the legacy one being the base: the run on
  2024-01-03, which changes nothing, and the rebalanced run on 2024-01-12, which appends
  the computed rows of 2024-01-11 and 2024-01-12 to the legacy history.
\<close>

theorem earliest_candidate_is_base_witness:
  "net_values_csv two_histories_state = Some example_history
   \<and> legacy_csv two_histories_state = Some legacy_history
   \<and> example_history \<noteq> [] \<and> legacy_history \<noteq> []
   \<and> Min (date ` set legacy_history) < Min (date ` set example_history)
   \<and> choose_existing two_histories_state = Inr (Some (load_net_values legacy_history))
   \<and> clock_today example_cfg \<le> date (last (load_net_values legacy_history))
   \<and> snd (main example_cfg later_source two_histories_state) = two_histories_state
   \<and> load_api_key rebalanced_cfg = Inr ''demo''
   \<and> load_rebalance_date rebalanced_cfg = Inr 738895
   \<and> load_base_portfolio rebalanced_cfg = Inr example_portfolio
   \<and> date (last (load_net_values legacy_history)) < clock_today rebalanced_cfg
   \<and> fetch_prices later_source (calls two_histories_state) (map ticker example_portfolio)
         (max 738895 (date (last (load_net_values legacy_history)))) (clock_today rebalanced_cfg)
       = (Inr later_frame, 2)
   \<and> (\<exists>nv. compute_net_values later_frame (map weight_frac example_portfolio)
               (net_value (last (load_net_values legacy_history))) = Inr nv
         \<and> net_values_csv (snd (main rebalanced_cfg later_source two_histories_state))
             = Some (load_net_values legacy_history @ drop 1 nv))
   \<and> net_values_csv (snd (main rebalanced_cfg later_source two_histories_state)) =
       Some (legacy_history @
         [\<lparr>date = 738896, net_value = 1.113, pct_change = 0.06\<rparr>,
          \<lparr>date = 738897, net_value = 1.218, pct_change = 1.218 / 1.113 - 1\<rparr>])"
proof -
  have h: "example_history \<noteq> []" "legacy_history \<noteq> []"
    by (simp_all add: legacy_history_def example_history_def)
  have lt: "Min (date ` set legacy_history) < Min (date ` set example_history)"
    by (simp add: legacy_history_def example_history_def)
  have c: "load_net_values legacy_history =
      (if Min (date ` set legacy_history) < Min (date ` set example_history)
       then load_net_values legacy_history else load_net_values example_history)"
    using lt by simp
  have m1: "main example_cfg later_source two_histories_state
      = (fst (main example_cfg later_source two_histories_state),
         snd (main example_cfg later_source two_histories_state))"
    by simp
  have m2: "main rebalanced_cfg later_source two_histories_state
      = (fst (main rebalanced_cfg later_source two_histories_state),
         snd (main rebalanced_cfg later_source two_histories_state))"
    by simp
  note t1 = earliest_candidate_is_base [OF two_histories_fields(2,3) h c m1]
  note t2 = earliest_candidate_is_base [OF two_histories_fields(2,3) h c m2]
  have td1: "clock_today example_cfg \<le> date (last (load_net_values legacy_history))"
    by (simp add: load_legacy_history last_legacy_history load_example_cfg)
  have td2: "date (last (load_net_values legacy_history)) < clock_today rebalanced_cfg"
    by (simp add: load_legacy_history last_legacy_history load_rebalanced_cfg)
  have fp: "fetch_prices later_source (calls two_histories_state) (map ticker example_portfolio)
         (max 738895 (date (last (load_net_values legacy_history)))) (clock_today rebalanced_cfg)
       = (Inr later_frame, 2)"
    using fetch_prices_later [of 0]
    by (simp add: load_legacy_history last_legacy_history load_rebalanced_cfg
        two_histories_fields example_portfolio_columns)
  have 1: "choose_existing two_histories_state = Inr (Some (load_net_values legacy_history))"
    using t1 by blast
  have 2: "snd (main example_cfg later_source two_histories_state) = two_histories_state"
    using t1 td1 by blast
  have 3: "\<exists>nv. compute_net_values later_frame (map weight_frac example_portfolio)
               (net_value (last (load_net_values legacy_history))) = Inr nv
         \<and> net_values_csv (snd (main rebalanced_cfg later_source two_histories_state))
             = Some (load_net_values legacy_history @ drop 1 nv)"
    using t2 load_rebalanced_cfg(1,2,3) td2 fp by blast
  show ?thesis
    using two_histories_fields(2,3) h lt 1 2 3 td1 td2 fp load_rebalanced_cfg(1,2,3)
      main_two_histories
    by blast
qed

end
